theory Spec2Isabelle
  imports Main "HOL-Library.Word"
begin

section \<open>Embedder API of the environment core (src/api/environment.cc)\<close>

subsection \<open>Fatal checks\<close>

text \<open>
  A failed \<^verbatim>\<open>CHECK\<close>, \<^verbatim>\<open>CHECK_EQ\<close> or \<^verbatim>\<open>CHECK_NE\<close>, a \<^verbatim>\<open>FromJust()\<close> on an empty
  \<^verbatim>\<open>Maybe\<close> and a \<^verbatim>\<open>ToLocalChecked()\<close> on an empty \<^verbatim>\<open>MaybeLocal\<close> abort the
  process. Every operation that can abort returns \<open>fatal + 'a\<close>, with \<open>Inl\<close> for
  the abort.
\<close>

datatype fatal = CheckFailed | FromJustOnNothing | ToLocalCheckedOnEmpty

subsection \<open>The debug-tracking array buffer allocator\<close>

text \<open>
  \<^verbatim>\<open>size_t\<close> and \<^verbatim>\<open>void*\<close> are 64-bit values; \<^verbatim>\<open>nullptr\<close> is the pointer 0.
\<close>

type_synonym size_t = "64 word"
type_synonym pointer = "64 word"

definition nullptr :: pointer where
  "nullptr = 0"

text \<open>
  \<^verbatim>\<open>DebuggingArrayBufferAllocator\<close> derives from \<^verbatim>\<open>NodeArrayBufferAllocator\<close>, which
  obtains and releases the memory: its \<^verbatim>\<open>Allocate\<close> picks \<^verbatim>\<open>UncheckedCalloc\<close> or
  \<^verbatim>\<open>UncheckedMalloc\<close> by the zero-fill flags, its \<^verbatim>\<open>AllocateUninitialized\<close>,
  \<^verbatim>\<open>Free\<close> and \<^verbatim>\<open>Reallocate\<close> are declared outside this file. The calls forwarded to
  that base class are kept, in order, in \<open>base_calls\<close>; the pointer a forwarded
  allocation returns is a parameter (\<open>ret\<close>) of the operation of the model. The
  mutex every operation takes has no sequential content.
\<close>

datatype base_call =
    BaseAllocate size_t
  | BaseAllocateUninitialized size_t
  | BaseFree pointer size_t
  | BaseReallocate pointer size_t size_t

text \<open>The member \<^verbatim>\<open>allocations_\<close> is the field \<open>allocations\<close>.\<close>

record DebuggingArrayBufferAllocator =
  allocations :: "pointer \<rightharpoonup> size_t"
  base_calls :: "base_call list"

definition forward :: "base_call \<Rightarrow> DebuggingArrayBufferAllocator \<Rightarrow> DebuggingArrayBufferAllocator" where
  "forward c a = a\<lparr>base_calls := base_calls a @ [c]\<rparr>"

text \<open>
  \<^verbatim>\<open>if (data == nullptr) return;
  CHECK_EQ(allocations_.count(data), 0);
  allocations_[data] = size;\<close>
\<close>

definition RegisterPointerInternal ::
  "pointer \<Rightarrow> size_t \<Rightarrow> DebuggingArrayBufferAllocator \<Rightarrow> fatal + DebuggingArrayBufferAllocator" where
  "RegisterPointerInternal data sz a =
     (if data = nullptr then Inr a
      else if allocations a data \<noteq> None then Inl CheckFailed
      else Inr (a\<lparr>allocations := (allocations a)(data \<mapsto> sz)\<rparr>))"

text \<open>
  \<^verbatim>\<open>if (data == nullptr) return;
  auto it = allocations_.find(data);
  CHECK_NE(it, allocations_.end());
  if (size > 0) { CHECK_EQ(it->second, size); }
  allocations_.erase(it);\<close>
\<close>

definition UnregisterPointerInternal ::
  "pointer \<Rightarrow> size_t \<Rightarrow> DebuggingArrayBufferAllocator \<Rightarrow> fatal + DebuggingArrayBufferAllocator" where
  "UnregisterPointerInternal data sz a =
     (if data = nullptr then Inr a
      else case allocations a data of
        None \<Rightarrow> Inl CheckFailed
      | Some recorded \<Rightarrow>
          if 0 < sz \<and> recorded \<noteq> sz then Inl CheckFailed
          else Inr (a\<lparr>allocations := (allocations a)(data := None)\<rparr>))"

text \<open>\<^verbatim>\<open>~DebuggingArrayBufferAllocator() { CHECK(allocations_.empty()); }\<close>\<close>

definition destroy :: "DebuggingArrayBufferAllocator \<Rightarrow> fatal + unit" where
  "destroy a = (if dom (allocations a) = {} then Inr () else Inl CheckFailed)"

text \<open>
  \<^verbatim>\<open>void* data = NodeArrayBufferAllocator::Allocate(size);
  RegisterPointerInternal(data, size);
  return data;\<close>
  The result pairs the returned pointer with the allocator's new state.
\<close>

definition Allocate ::
  "pointer \<Rightarrow> size_t \<Rightarrow> DebuggingArrayBufferAllocator \<Rightarrow> fatal + (pointer \<times> DebuggingArrayBufferAllocator)" where
  "Allocate ret sz a =
     (case RegisterPointerInternal ret sz (forward (BaseAllocate sz) a) of
        Inl e \<Rightarrow> Inl e
      | Inr a' \<Rightarrow> Inr (ret, a'))"

definition AllocateUninitialized ::
  "pointer \<Rightarrow> size_t \<Rightarrow> DebuggingArrayBufferAllocator \<Rightarrow> fatal + (pointer \<times> DebuggingArrayBufferAllocator)" where
  "AllocateUninitialized ret sz a =
     (case RegisterPointerInternal ret sz (forward (BaseAllocateUninitialized sz) a) of
        Inl e \<Rightarrow> Inl e
      | Inr a' \<Rightarrow> Inr (ret, a'))"

text \<open>
  \<^verbatim>\<open>UnregisterPointerInternal(data, size);
  NodeArrayBufferAllocator::Free(data, size);\<close>
\<close>

definition Free ::
  "pointer \<Rightarrow> size_t \<Rightarrow> DebuggingArrayBufferAllocator \<Rightarrow> fatal + DebuggingArrayBufferAllocator" where
  "Free data sz a =
     (case UnregisterPointerInternal data sz a of
        Inl e \<Rightarrow> Inl e
      | Inr a' \<Rightarrow> Inr (forward (BaseFree data sz) a'))"

text \<open>
  \<^verbatim>\<open>void* ret = NodeArrayBufferAllocator::Reallocate(data, old_size, size);
  if (ret == nullptr) {
    if (size == 0) UnregisterPointerInternal(data, old_size);
    return nullptr;
  }
  if (data != nullptr) {
    auto it = allocations_.find(data);
    CHECK_NE(it, allocations_.end());
    allocations_.erase(it);
  }
  RegisterPointerInternal(ret, size);
  return ret;\<close>
\<close>

text \<open>\<open>erase_checked\<close> is the block \<^verbatim>\<open>if (data != nullptr) { ... }\<close> of \<^verbatim>\<open>Reallocate\<close>.\<close>

definition erase_checked ::
  "pointer \<Rightarrow> DebuggingArrayBufferAllocator \<Rightarrow> fatal + DebuggingArrayBufferAllocator" where
  "erase_checked data a =
     (if data \<noteq> nullptr then
        (case allocations a data of
           None \<Rightarrow> Inl CheckFailed
         | Some _ \<Rightarrow> Inr (a\<lparr>allocations := (allocations a)(data := None)\<rparr>))
      else Inr a)"

definition Reallocate ::
  "pointer \<Rightarrow> pointer \<Rightarrow> size_t \<Rightarrow> size_t \<Rightarrow> DebuggingArrayBufferAllocator
     \<Rightarrow> fatal + (pointer \<times> DebuggingArrayBufferAllocator)" where
  "Reallocate ret data old_size sz a =
     (let a1 = forward (BaseReallocate data old_size sz) a in
      if ret = nullptr then
        (if sz = 0 then
           (case UnregisterPointerInternal data old_size a1 of
              Inl e \<Rightarrow> Inl e
            | Inr a2 \<Rightarrow> Inr (nullptr, a2))
         else Inr (nullptr, a1))
      else
        (case erase_checked data a1 of
           Inl e \<Rightarrow> Inl e
         | Inr a2 \<Rightarrow>
             (case RegisterPointerInternal ret sz a2 of
                Inl e \<Rightarrow> Inl e
              | Inr a3 \<Rightarrow> Inr (ret, a3))))"

subsection \<open>Sequences of allocator calls\<close>

text \<open>
  A client's use of the allocator is a list of calls, each with the pointer the base
  allocator returned for it. \<open>perform_all\<close> runs the list and stops at the first
  fatal check. \<open>returned\<close> lists the non-null pointer a call hands to its caller;
  \<open>released\<close> lists the non-null pointer a call gives back (\<^verbatim>\<open>Free\<close>, and
  \<^verbatim>\<open>Reallocate\<close> unless it failed with a non-zero size).
\<close>

datatype allocator_call =
    CallAllocate pointer size_t
  | CallAllocateUninitialized pointer size_t
  | CallFree pointer size_t
  | CallReallocate pointer pointer size_t size_t

fun perform :: "allocator_call \<Rightarrow> DebuggingArrayBufferAllocator \<Rightarrow> fatal + DebuggingArrayBufferAllocator" where
  "perform (CallAllocate ret sz) a = map_sum id snd (Allocate ret sz a)"
| "perform (CallAllocateUninitialized ret sz) a = map_sum id snd (AllocateUninitialized ret sz a)"
| "perform (CallFree data sz) a = Free data sz a"
| "perform (CallReallocate ret data old_size sz) a = map_sum id snd (Reallocate ret data old_size sz a)"

fun perform_all :: "allocator_call list \<Rightarrow> DebuggingArrayBufferAllocator \<Rightarrow> fatal + DebuggingArrayBufferAllocator" where
  "perform_all [] a = Inr a"
| "perform_all (c # cs) a = (case perform c a of Inl e \<Rightarrow> Inl e | Inr a' \<Rightarrow> perform_all cs a')"

fun returned :: "allocator_call \<Rightarrow> pointer list" where
  "returned (CallAllocate ret sz) = (if ret = nullptr then [] else [ret])"
| "returned (CallAllocateUninitialized ret sz) = (if ret = nullptr then [] else [ret])"
| "returned (CallFree data sz) = []"
| "returned (CallReallocate ret data old_size sz) = (if ret = nullptr then [] else [ret])"

fun released :: "allocator_call \<Rightarrow> pointer list" where
  "released (CallAllocate ret sz) = []"
| "released (CallAllocateUninitialized ret sz) = []"
| "released (CallFree data sz) = (if data = nullptr then [] else [data])"
| "released (CallReallocate ret data old_size sz) =
     (if data = nullptr \<or> (ret = nullptr \<and> sz \<noteq> 0) then [] else [data])"

definition tracked :: "DebuggingArrayBufferAllocator \<Rightarrow> pointer \<Rightarrow> nat" where
  "tracked a p = (if allocations a p = None then 0 else 1)"

text \<open>Allocating every block of a list, and freeing every block of a list.\<close>

definition allocate_each :: "(pointer \<times> size_t) list \<Rightarrow> allocator_call list" where
  "allocate_each ps = map (\<lambda>(p, n). CallAllocate p n) ps"

definition free_each :: "(pointer \<times> size_t) list \<Rightarrow> allocator_call list" where
  "free_each ps = map (\<lambda>(p, n). CallFree p n) ps"

subsection \<open>Default heap sizing of a new isolate\<close>

text \<open>
  \<^verbatim>\<open>uv_get_total_memory()\<close> and \<^verbatim>\<open>uv_get_constrained_memory()\<close> are queries of the
  event-loop library; the values they return are the two fields of \<open>uv_memory\<close>
  (0 from \<^verbatim>\<open>uv_get_constrained_memory\<close> is its answer when it knows no constraint).
  The engine's \<^verbatim>\<open>ResourceConstraints::ConfigureDefaults(physical_memory,
  virtual_memory_limit)\<close> is outside this file: the constraints of the model keep the
  arguments of the call, and \<open>None\<close> while the engine's built-in defaults stand.
\<close>

type_synonym uint64_t = "64 word"

record uv_memory =
  uv_get_total_memory :: uint64_t
  uv_get_constrained_memory :: uint64_t

record ResourceConstraints =
  configured_defaults :: "(uint64_t \<times> uint64_t) option"

record CreateParams =
  constraints :: ResourceConstraints

definition ConfigureDefaults :: "uint64_t \<Rightarrow> uint64_t \<Rightarrow> ResourceConstraints \<Rightarrow> ResourceConstraints" where
  "ConfigureDefaults physical_memory virtual_memory_limit c =
     c\<lparr>configured_defaults := Some (physical_memory, virtual_memory_limit)\<rparr>"

text \<open>
  \<^verbatim>\<open>const uint64_t constrained_memory = uv_get_constrained_memory();
  const uint64_t total_memory = constrained_memory > 0 ?
      std::min(uv_get_total_memory(), constrained_memory) :
      uv_get_total_memory();
  if (total_memory > 0) {
    params->constraints.ConfigureDefaults(total_memory, 0);
  }\<close>
\<close>

definition SetIsolateCreateParamsForNode :: "uv_memory \<Rightarrow> CreateParams \<Rightarrow> CreateParams" where
  "SetIsolateCreateParamsForNode uv params =
     (let constrained_memory = uv_get_constrained_memory uv;
          total_memory =
            (if 0 < constrained_memory
             then min (uv_get_total_memory uv) constrained_memory
             else uv_get_total_memory uv)
      in if 0 < total_memory
         then params\<lparr>constraints := ConfigureDefaults total_memory 0 (constraints params)\<rparr>
         else params)"

text \<open>A host with 8 GiB of memory and no container constraint, and fresh parameters.\<close>

definition unconstrained_host :: uv_memory where
  "unconstrained_host = \<lparr>uv_get_total_memory = 8589934592, uv_get_constrained_memory = 0\<rparr>"

definition fresh_params :: CreateParams where
  "fresh_params = \<lparr>constraints = \<lparr>configured_defaults = None\<rparr>\<rparr>"

subsection \<open>Thread ids\<close>

text \<open>
  \<^verbatim>\<open>static std::atomic<uint64_t> next_thread_id{0};
  ThreadId AllocateEnvironmentThreadId() { return ThreadId { next_thread_id++ }; }\<close>
  The counter is the state passed through; one atomic post-increment is one step.
\<close>

datatype ThreadId = ThreadId (id_of: uint64_t)

definition next_thread_id_initial :: uint64_t where
  "next_thread_id_initial = 0"

definition AllocateEnvironmentThreadId :: "uint64_t \<Rightarrow> ThreadId \<times> uint64_t" where
  "AllocateEnvironmentThreadId next_thread_id = (ThreadId next_thread_id, next_thread_id + 1)"

text \<open>\<open>n\<close> allocations one after the other, in the order they are made.\<close>

fun allocate_thread_ids :: "nat \<Rightarrow> uint64_t \<Rightarrow> ThreadId list \<times> uint64_t" where
  "allocate_thread_ids 0 c = ([], c)"
| "allocate_thread_ids (Suc n) c =
     (case AllocateEnvironmentThreadId c of
        (t, c1) \<Rightarrow> (case allocate_thread_ids n c1 of (ts, c2) \<Rightarrow> (t # ts, c2)))"

subsection \<open>The environment\<close>

text \<open>
  \<^verbatim>\<open>Environment\<close>, \<^verbatim>\<open>IsolateData\<close> and \<^verbatim>\<open>EnvironmentFlags\<close> are declared outside this
  file. The record has one field for each accessor this file reads or writes, named
  after it. \<^verbatim>\<open>flags & EnvironmentFlags::kX\<close> tests one bit of the mask: the mask is
  the set of its flags. A platform, a sub-worker context, a cleanup hook and an
  at-exit callback are each known by a number; \<^verbatim>\<open>platform()\<close> is \<open>None\<close> for
  \<^verbatim>\<open>nullptr\<close>.
\<close>

datatype EnvironmentFlag =
    kDefaultFlags
  | kOwnsProcessState
  | kPrepareForExecution
  | kOtherFlag nat

record IsolateData =
  platform :: "nat option"

record Environment =
  isolate_data :: IsolateData
  is_main_thread :: bool
  is_stopping :: bool
  should_abort_on_uncaught_toggle :: "nat \<Rightarrow> 32 word"
  inside_should_not_abort_on_uncaught_scope :: bool
  abort_on_uncaught_exception :: bool
  thread_stopper_stopped :: bool
  sub_worker_contexts :: "nat list"
  cleanup_hooks :: "nat list"
  at_exit_functions :: "nat list"

text \<open>
  \<^verbatim>\<open>Environment* env = Environment::GetCurrent(isolate);
  return env != nullptr &&
         (env->is_main_thread() || !env->is_stopping()) &&
         env->should_abort_on_uncaught_toggle()[0] &&
         !env->inside_should_not_abort_on_uncaught_scope();\<close>
  The argument is what \<^verbatim>\<open>Environment::GetCurrent(isolate)\<close> returns, \<open>None\<close> for
  \<^verbatim>\<open>nullptr\<close>. A \<^verbatim>\<open>uint32_t\<close> converts to true when it is not 0.
\<close>

definition ShouldAbortOnUncaughtException :: "Environment option \<Rightarrow> bool" where
  "ShouldAbortOnUncaughtException current =
     (case current of
        None \<Rightarrow> False
      | Some env \<Rightarrow>
          (is_main_thread env \<or> \<not> is_stopping env)
          \<and> should_abort_on_uncaught_toggle env 0 \<noteq> 0
          \<and> \<not> inside_should_not_abort_on_uncaught_scope env)"

text \<open>An environment of a worker thread, running, with the toggle set.\<close>

definition running_worker :: Environment where
  "running_worker =
     \<lparr>isolate_data = \<lparr>platform = Some 0\<rparr>,
      is_main_thread = False, is_stopping = False,
      should_abort_on_uncaught_toggle = (\<lambda>i. 1),
      inside_should_not_abort_on_uncaught_scope = False,
      abort_on_uncaught_exception = True, thread_stopper_stopped = False,
      sub_worker_contexts = [7], cleanup_hooks = [1, 2], at_exit_functions = [3]\<rparr>"

subsection \<open>Engine objects and contexts\<close>

text \<open>
  The engine's API (\<^verbatim>\<open>v8::Object\<close>, \<^verbatim>\<open>v8::Context\<close>, \<^verbatim>\<open>v8::Maybe\<close>) is outside
  this file. A context is modelled with the objects of its isolate: a list of
  objects, an object being known by its index, so that \<^verbatim>\<open>Object::New\<close> appends a
  fresh one. An object has its own properties, the names of those of them that are
  not configurable (which \<^verbatim>\<open>Delete\<close> leaves in place, returning false), its private
  properties (keyed by the name given to \<^verbatim>\<open>Private::ForApi\<close>) and its prototype. The flag \<open>throws\<close> stands for
  an exotic object (a proxy, an intercepted or access-checked object) whose handlers
  throw: every operation on it leaves an exception pending and returns the empty
  \<^verbatim>\<open>Maybe\<close>, which is \<open>None\<close>. \<^verbatim>\<open>Get\<close> looks a property up along the prototype
  chain; \<^verbatim>\<open>Delete\<close> and \<^verbatim>\<open>Set\<close> act on the own properties of the object, and a
  private property is an own property.
\<close>

type_synonym object_id = nat

datatype js_value =
    JSUndefined
  | JSNull
  | JSBoolean bool
  | JSString string
  | JSObject (object_of: object_id)

fun IsObject :: "js_value \<Rightarrow> bool" where
  "IsObject (JSObject _) = True"
| "IsObject _ = False"

record js_object =
  properties :: "string \<rightharpoonup> js_value"
  non_configurable :: "string set"
  private_properties :: "string \<rightharpoonup> js_value"
  prototype :: js_value
  throws :: bool

datatype ContextEmbedderIndex =
    kAllowWasmCodeGeneration
  | kOtherIndex nat

record Context =
  heap :: "js_object list"
  global :: object_id
  embedder_data :: "ContextEmbedderIndex \<rightharpoonup> js_value"

definition lookup_object :: "Context \<Rightarrow> object_id \<Rightarrow> js_object option" where
  "lookup_object context obj =
     (if obj < length (heap context) then Some (heap context ! obj) else None)"

definition store_object :: "object_id \<Rightarrow> js_object \<Rightarrow> Context \<Rightarrow> Context" where
  "store_object obj ob context = context\<lparr>heap := (heap context)[obj := ob]\<rparr>"

definition new_object :: js_object where
  "new_object =
     \<lparr>properties = Map.empty, non_configurable = {}, private_properties = Map.empty,
      prototype = JSNull, throws = False\<rparr>"

text \<open>\<^verbatim>\<open>Object::New(isolate)\<close>: the new object and the context that holds it.\<close>

definition Object_New :: "Context \<Rightarrow> object_id \<times> Context" where
  "Object_New context =
     (length (heap context), context\<lparr>heap := heap context @ [new_object]\<rparr>)"

text \<open>
  \<^verbatim>\<open>obj->Get(context, key)\<close>, a \<^verbatim>\<open>MaybeLocal<Value>\<close>. The lookup starts at the
  object and follows the prototypes: an object on the way that throws gives the empty
  result, the first object that has the property gives its value, and the end of the
  chain (a prototype that is not an object) gives undefined. The engine never builds
  a cyclic chain, so a chain has no more objects than the context has; the lookup is
  given as many steps, and a chain that would need more (a cycle) gives the empty
  result.
\<close>

fun lookup_property :: "nat \<Rightarrow> Context \<Rightarrow> object_id \<Rightarrow> string \<Rightarrow> js_value option" where
  "lookup_property 0 context obj key = None"
| "lookup_property (Suc steps) context obj key =
     (case lookup_object context obj of
        None \<Rightarrow> None
      | Some ob \<Rightarrow>
          if throws ob then None
          else
            (case properties ob key of
               Some v \<Rightarrow> Some v
             | None \<Rightarrow>
                 if IsObject (prototype ob)
                 then lookup_property steps context (object_of (prototype ob)) key
                 else Some JSUndefined))"

definition Object_Get :: "Context \<Rightarrow> object_id \<Rightarrow> string \<Rightarrow> js_value option" where
  "Object_Get context obj key = lookup_property (length (heap context)) context obj key"

text \<open>\<^verbatim>\<open>obj->Set(context, key, value)\<close>, a \<^verbatim>\<open>Maybe<bool>\<close>, with the context after it.\<close>

definition Object_Set ::
  "Context \<Rightarrow> object_id \<Rightarrow> string \<Rightarrow> js_value \<Rightarrow> (bool \<times> Context) option" where
  "Object_Set context obj key v =
     (case lookup_object context obj of
        None \<Rightarrow> None
      | Some ob \<Rightarrow>
          if throws ob then None
          else Some (True, store_object obj (ob\<lparr>properties := (properties ob)(key \<mapsto> v)\<rparr>) context))"

text \<open>
  \<^verbatim>\<open>obj->Delete(context, key)\<close>, a \<^verbatim>\<open>Maybe<bool>\<close>: false, with nothing changed, for
  a property that is there and is not configurable; true otherwise, with the property
  gone (deleting an absent property succeeds).
\<close>

definition Object_Delete ::
  "Context \<Rightarrow> object_id \<Rightarrow> string \<Rightarrow> (bool \<times> Context) option" where
  "Object_Delete context obj key =
     (case lookup_object context obj of
        None \<Rightarrow> None
      | Some ob \<Rightarrow>
          if throws ob then None
          else if properties ob key \<noteq> None \<and> key \<in> non_configurable ob
          then Some (False, context)
          else Some (True, store_object obj (ob\<lparr>properties := (properties ob)(key := None)\<rparr>) context))"

text \<open>\<^verbatim>\<open>obj->GetPrivate(context, key)\<close> and \<^verbatim>\<open>obj->SetPrivate(context, key, value)\<close>.\<close>

definition Object_GetPrivate :: "Context \<Rightarrow> object_id \<Rightarrow> string \<Rightarrow> js_value option" where
  "Object_GetPrivate context obj key =
     (case lookup_object context obj of
        None \<Rightarrow> None
      | Some ob \<Rightarrow>
          if throws ob then None
          else Some (case private_properties ob key of None \<Rightarrow> JSUndefined | Some v \<Rightarrow> v))"

definition Object_SetPrivate ::
  "Context \<Rightarrow> object_id \<Rightarrow> string \<Rightarrow> js_value \<Rightarrow> (bool \<times> Context) option" where
  "Object_SetPrivate context obj key v =
     (case lookup_object context obj of
        None \<Rightarrow> None
      | Some ob \<Rightarrow>
          if throws ob then None
          else Some (True,
            store_object obj (ob\<lparr>private_properties := (private_properties ob)(key \<mapsto> v)\<rparr>) context))"

text \<open>\<^verbatim>\<open>obj->SetPrototype(context, value)\<close>, a \<^verbatim>\<open>Maybe<bool>\<close>.\<close>

definition Object_SetPrototype ::
  "Context \<Rightarrow> object_id \<Rightarrow> js_value \<Rightarrow> (bool \<times> Context) option" where
  "Object_SetPrototype context obj v =
     (case lookup_object context obj of
        None \<Rightarrow> None
      | Some ob \<Rightarrow>
          if throws ob then None
          else Some (True, store_object obj (ob\<lparr>prototype := v\<rparr>) context))"

definition SetEmbedderData :: "ContextEmbedderIndex \<Rightarrow> js_value \<Rightarrow> Context \<Rightarrow> Context" where
  "SetEmbedderData index v context =
     context\<lparr>embedder_data := (embedder_data context)(index \<mapsto> v)\<rparr>"

subsection \<open>Per-context exports\<close>

text \<open>
  \<^verbatim>\<open>Local<Object> global = context->Global();
  Local<Private> key = Private::ForApi(isolate,
      FIXED_ONE_BYTE_STRING(isolate, "node:per_context_binding_exports"));
  Local<Value> existing_value;
  if (!global->GetPrivate(context, key).ToLocal(&existing_value))
    return MaybeLocal<Object>();
  if (existing_value->IsObject())
    return handle_scope.Escape(existing_value.As<Object>());
  Local<Object> exports = Object::New(isolate);
  if (context->Global()->SetPrivate(context, key, exports).IsNothing())
    return MaybeLocal<Object>();
  return handle_scope.Escape(exports);\<close>
  The result is the \<^verbatim>\<open>MaybeLocal<Object>\<close> (\<open>None\<close> when empty) and the context
  after the call.
\<close>

definition per_context_binding_exports :: string where
  "per_context_binding_exports = ''node:per_context_binding_exports''"

definition GetPerContextExports :: "Context \<Rightarrow> object_id option \<times> Context" where
  "GetPerContextExports context =
     (case Object_GetPrivate context (global context) per_context_binding_exports of
        None \<Rightarrow> (None, context)
      | Some existing_value \<Rightarrow>
          if IsObject existing_value then (Some (object_of existing_value), context)
          else
            (case Object_New context of
               (exports, context1) \<Rightarrow>
                 (case Object_SetPrivate context1 (global context1)
                         per_context_binding_exports (JSObject exports) of
                    None \<Rightarrow> (None, context1)
                  | Some (stored, context2) \<Rightarrow> (Some exports, context2))))"

subsection \<open>Context initialization\<close>

text \<open>
  The runtime stage. Its two blocks differ in their strings only:
  \<^verbatim>\<open>Local<Value> intl_v;
  if (context->Global()->Get(context, intl_string).ToLocal(&intl_v) &&
      intl_v->IsObject()) {
    Local<Object> intl = intl_v.As<Object>();
    intl->Delete(context, break_iter_string).FromJust();
  }\<close>
  \<^verbatim>\<open>FromJust()\<close> aborts the process on an empty \<^verbatim>\<open>Maybe\<close>.
\<close>

definition delete_from_global_object :: "string \<Rightarrow> string \<Rightarrow> Context \<Rightarrow> fatal + Context" where
  "delete_from_global_object object_string property_string context =
     (case Object_Get context (global context) object_string of
        None \<Rightarrow> Inr context
      | Some v \<Rightarrow>
          if IsObject v then
            (case Object_Delete context (object_of v) property_string of
               None \<Rightarrow> Inl FromJustOnNothing
             | Some (deleted, context') \<Rightarrow> Inr context')
          else Inr context)"

definition InitializeContextRuntime :: "Context \<Rightarrow> fatal + Context" where
  "InitializeContextRuntime context =
     (case delete_from_global_object ''Intl'' ''v8BreakIterator'' context of
        Inl e \<Rightarrow> Inl e
      | Inr context1 \<Rightarrow> delete_from_global_object ''Atomics'' ''wake'' context1)"

text \<open>
  Two cases of a deletion, as the code distinguishes them. The global has no such
  object: the lookup of the object on the global gives the empty result, or a value
  that is not an object (an absent property is undefined). The global has the object
  and the object is without the property: the object found is an ordinary one (its
  handlers do not throw) that has no such own property.
\<close>

definition no_such_object :: "string \<Rightarrow> Context \<Rightarrow> bool" where
  "no_such_object object_string context =
     (case Object_Get context (global context) object_string of
        None \<Rightarrow> True
      | Some v \<Rightarrow> \<not> IsObject v)"

definition ordinary_without_property :: "string \<Rightarrow> string \<Rightarrow> Context \<Rightarrow> bool" where
  "ordinary_without_property object_string property_string context =
     (case Object_Get context (global context) object_string of
        None \<Rightarrow> False
      | Some v \<Rightarrow>
          IsObject v \<and>
          (case lookup_object context (object_of v) of
             None \<Rightarrow> False
           | Some ob \<Rightarrow> \<not> throws ob \<and> properties ob property_string = None))"

text \<open>
  The snapshot-safe stage. \<^verbatim>\<open>NativeModuleEnv::LookupAndCompile\<close> is outside this
  file: it is the parameter \<open>LookupAndCompile\<close>, which gives the compiled function of
  a module or the empty \<^verbatim>\<open>MaybeLocal\<close>. A compiled function, called with its
  arguments, returns a \<^verbatim>\<open>MaybeLocal<Value>\<close> and the context its run leaves.
\<close>

type_synonym js_function = "js_value list \<Rightarrow> Context \<Rightarrow> js_value option \<times> Context"

definition context_files :: "string list" where
  "context_files = [''internal/per_context/primordials'', ''internal/per_context/domexception'']"

text \<open>
  \<^verbatim>\<open>for (const char** module = context_files; *module != nullptr; module++) {
    Local<Value> arguments[] = {context->Global(), exports, primordials};
    MaybeLocal<Function> maybe_fn =
        native_module::NativeModuleEnv::LookupAndCompile(context, *module, &parameters, nullptr);
    if (maybe_fn.IsEmpty()) { return false; }
    Local<Function> fn = maybe_fn.ToLocalChecked();
    MaybeLocal<Value> result = fn->Call(context, Undefined(isolate), arraysize(arguments), arguments);
    if (result.IsEmpty()) { return false; }
  }\<close>
\<close>

fun run_context_files ::
  "(string \<Rightarrow> js_function option) \<Rightarrow> object_id \<Rightarrow> object_id \<Rightarrow> string list \<Rightarrow> Context
     \<Rightarrow> bool \<times> Context" where
  "run_context_files LookupAndCompile exports primordials [] context = (True, context)"
| "run_context_files LookupAndCompile exports primordials (module # modules) context =
     (case LookupAndCompile module of
        None \<Rightarrow> (False, context)
      | Some fn \<Rightarrow>
          (case fn [JSObject (global context), JSObject exports, JSObject primordials] context of
             (None, context') \<Rightarrow> (False, context')
           | (Some result, context') \<Rightarrow>
               run_context_files LookupAndCompile exports primordials modules context'))"

text \<open>
  \<^verbatim>\<open>context->SetEmbedderData(ContextEmbedderIndex::kAllowWasmCodeGeneration, True(isolate));
  Local<Object> primordials = Object::New(isolate);
  if (!primordials->SetPrototype(context, Null(isolate)).FromJust() ||
      !GetPerContextExports(context).ToLocal(&exports) ||
      !exports->Set(context, primordials_string, primordials).FromJust()) {
    return false;
  }\<close>
  then the loop over the context files, then \<^verbatim>\<open>return true\<close>.
\<close>

definition InitializeContextForSnapshot ::
  "(string \<Rightarrow> js_function option) \<Rightarrow> Context \<Rightarrow> fatal + (bool \<times> Context)" where
  "InitializeContextForSnapshot LookupAndCompile context =
     (let context1 = SetEmbedderData kAllowWasmCodeGeneration (JSBoolean True) context in
      case Object_New context1 of
        (primordials, context2) \<Rightarrow>
          (case Object_SetPrototype context2 primordials JSNull of
             None \<Rightarrow> Inl FromJustOnNothing
           | Some (False, context3) \<Rightarrow> Inr (False, context3)
           | Some (True, context3) \<Rightarrow>
               (case GetPerContextExports context3 of
                  (None, context4) \<Rightarrow> Inr (False, context4)
                | (Some exports, context4) \<Rightarrow>
                    (case Object_Set context4 exports ''primordials'' (JSObject primordials) of
                       None \<Rightarrow> Inl FromJustOnNothing
                     | Some (False, context5) \<Rightarrow> Inr (False, context5)
                     | Some (True, context5) \<Rightarrow>
                         Inr (run_context_files LookupAndCompile exports primordials
                                context_files context5)))))"

text \<open>
  \<^verbatim>\<open>if (!InitializeContextForSnapshot(context)) { return false; }
  InitializeContextRuntime(context);
  return true;\<close>
\<close>

definition InitializeContext ::
  "(string \<Rightarrow> js_function option) \<Rightarrow> Context \<Rightarrow> fatal + (bool \<times> Context)" where
  "InitializeContext LookupAndCompile context =
     (case InitializeContextForSnapshot LookupAndCompile context of
        Inl e \<Rightarrow> Inl e
      | Inr (False, context1) \<Rightarrow> Inr (False, context1)
      | Inr (True, context1) \<Rightarrow>
          (case InitializeContextRuntime context1 of
             Inl e \<Rightarrow> Inl e
           | Inr context2 \<Rightarrow> Inr (True, context2)))"

text \<open>
  Contexts for the examples: one whose global object has nothing but an own property
  \<open>Intl\<close> holding an exotic object whose handlers throw (and which, as the second
  object of the context shows, has no property \<open>v8BreakIterator\<close>); a fresh one with
  an empty global object; and one whose global object inherits \<open>Intl\<close> from its
  prototype, \<open>Intl\<close> being an ordinary object with the property \<open>v8BreakIterator\<close>.
  And a module loader whose modules all compile and run without touching the context.
\<close>

definition throwing_intl_context :: Context where
  "throwing_intl_context =
     \<lparr>heap = [new_object\<lparr>properties := [''Intl'' \<mapsto> JSObject 1]\<rparr>, new_object\<lparr>throws := True\<rparr>],
      global = 0, embedder_data = Map.empty\<rparr>"

definition empty_context :: Context where
  "empty_context = \<lparr>heap = [new_object], global = 0, embedder_data = Map.empty\<rparr>"

definition inherited_intl_context :: Context where
  "inherited_intl_context =
     \<lparr>heap = [new_object\<lparr>prototype := JSObject 1\<rparr>,
              new_object\<lparr>properties := [''Intl'' \<mapsto> JSObject 2]\<rparr>,
              new_object\<lparr>properties := [''v8BreakIterator'' \<mapsto> JSString ''function'']\<rparr>],
      global = 0, embedder_data = Map.empty\<rparr>"

definition quiet_modules :: "string \<Rightarrow> js_function option" where
  "quiet_modules module = Some (\<lambda>arguments context. (Some JSUndefined, context))"

subsection \<open>Teardown of an environment\<close>

text \<open>
  The state \<^verbatim>\<open>FreeEnvironment\<close> works on: the \<^verbatim>\<open>Environment\<close> object, whether it is
  still alive (not yet deleted), the number of live \<^verbatim>\<open>Context::Scope\<close> objects, and
  the trace of the steps taken so far. Each entry of the trace is a step with what
  could be observed of the state when the step began; the entry of a cleanup hook or
  of an at-exit callback is what that hook observes. A \<^verbatim>\<open>HandleScope\<close> has no
  content here.
\<close>

datatype step =
    ScopeEntered
  | StoppedSet
  | SubWorkersStopped
  | CleanupHookRun nat
  | AtExitCallbackRun nat
  | ScopeExited
  | TasksDrained
  | EnvironmentDeleted

record observation =
  seen_stopped :: bool
  seen_sub_workers :: "nat list"
  seen_cleanup_hooks :: "nat list"
  seen_context_scopes :: nat
  seen_alive :: bool

record runtime =
  environment :: Environment
  alive :: bool
  context_scopes :: nat
  trace :: "(step \<times> observation) list"

definition observe :: "runtime \<Rightarrow> observation" where
  "observe r =
     \<lparr>seen_stopped = thread_stopper_stopped (environment r),
      seen_sub_workers = sub_worker_contexts (environment r),
      seen_cleanup_hooks = cleanup_hooks (environment r),
      seen_context_scopes = context_scopes r,
      seen_alive = alive r\<rparr>"

definition record_step :: "step \<Rightarrow> runtime \<Rightarrow> runtime" where
  "record_step s r = r\<lparr>trace := trace r @ [(s, observe r)]\<rparr>"

text \<open>Construction and destruction of a \<^verbatim>\<open>Context::Scope\<close>.\<close>

definition enter_context_scope :: "runtime \<Rightarrow> runtime" where
  "enter_context_scope r = (record_step ScopeEntered r)\<lparr>context_scopes := Suc (context_scopes r)\<rparr>"

definition exit_context_scope :: "runtime \<Rightarrow> runtime" where
  "exit_context_scope r = (record_step ScopeExited r)\<lparr>context_scopes := context_scopes r - 1\<rparr>"

text \<open>\<^verbatim>\<open>env->thread_stopper()->set_stopped(value)\<close>\<close>

definition set_stopped :: "bool \<Rightarrow> runtime \<Rightarrow> runtime" where
  "set_stopped v r =
     (record_step StoppedSet r)\<lparr>environment := (environment r)\<lparr>thread_stopper_stopped := v\<rparr>\<rparr>"

text \<open>
  Modelled from the spec: \<^verbatim>\<open>Environment::stop_sub_worker_contexts\<close> is defined
  outside this file; it "stops any sub-worker contexts", after which the environment
  has none running.
\<close>

definition stop_sub_worker_contexts :: "runtime \<Rightarrow> runtime" where
  "stop_sub_worker_contexts r =
     (record_step SubWorkersStopped r)\<lparr>environment := (environment r)\<lparr>sub_worker_contexts := []\<rparr>\<rparr>"

text \<open>
  Modelled from the spec: \<^verbatim>\<open>Environment::RunCleanup\<close> is defined outside this file; it
  "runs registered cleanup hooks". Each registered hook is run, in the order of the
  registry, and is no longer registered once it has completed.
\<close>

fun run_cleanup_hooks :: "nat list \<Rightarrow> runtime \<Rightarrow> runtime" where
  "run_cleanup_hooks [] r = r"
| "run_cleanup_hooks (h # hs) r =
     run_cleanup_hooks hs
       ((record_step (CleanupHookRun h) r)\<lparr>environment := (environment r)\<lparr>cleanup_hooks := hs\<rparr>\<rparr>)"

definition RunCleanup :: "runtime \<Rightarrow> runtime" where
  "RunCleanup r = run_cleanup_hooks (cleanup_hooks (environment r)) r"

text \<open>
  Modelled from the spec: \<^verbatim>\<open>RunAtExit\<close> is defined outside this file; it "runs at-exit
  callbacks". Each registered callback is run, in the order of the registry, and the
  registry is empty afterwards.
\<close>

fun run_at_exit_callbacks :: "nat list \<Rightarrow> runtime \<Rightarrow> runtime" where
  "run_at_exit_callbacks [] r = r"
| "run_at_exit_callbacks (f # fs) r = run_at_exit_callbacks fs (record_step (AtExitCallbackRun f) r)"

definition RunAtExit :: "runtime \<Rightarrow> runtime" where
  "RunAtExit r =
     (run_at_exit_callbacks (at_exit_functions (environment r)) r)
       \<lparr>environment := (environment r)\<lparr>at_exit_functions := []\<rparr>\<rparr>"

text \<open>\<^verbatim>\<open>platform->DrainTasks(env->isolate())\<close> and \<^verbatim>\<open>delete env\<close>.\<close>

definition DrainTasks :: "runtime \<Rightarrow> runtime" where
  "DrainTasks r = record_step TasksDrained r"

definition delete_Environment :: "runtime \<Rightarrow> runtime" where
  "delete_Environment r = (record_step EnvironmentDeleted r)\<lparr>alive := False\<rparr>"

text \<open>
  \<^verbatim>\<open>{
    HandleScope handle_scope(env->isolate());
    Context::Scope context_scope(env->context());
    env->thread_stopper()->set_stopped(true);
    env->stop_sub_worker_contexts();
    env->RunCleanup();
    RunAtExit(env);
  }
  MultiIsolatePlatform* platform = env->isolate_data()->platform();
  if (platform != nullptr)
    platform->DrainTasks(env->isolate());
  delete env;\<close>
\<close>

definition FreeEnvironment :: "runtime \<Rightarrow> runtime" where
  "FreeEnvironment r =
     (let r1 = enter_context_scope r;
          r2 = set_stopped True r1;
          r3 = stop_sub_worker_contexts r2;
          r4 = RunCleanup r3;
          r5 = RunAtExit r4;
          r6 = exit_context_scope r5;
          r7 = (case platform (isolate_data (environment r6)) of
                  None \<Rightarrow> r6
                | Some p \<Rightarrow> DrainTasks r6)
      in delete_Environment r7)"

text \<open>
  The order of teardown as the specification gives it: the stop flag, the sub-worker
  contexts, the cleanup hooks, the at-exit callbacks, all inside the context scope;
  then the platform's tasks (when the isolate data has a platform); then the release
  of the environment.
\<close>

definition teardown_order :: "Environment \<Rightarrow> step list" where
  "teardown_order env =
     [ScopeEntered, StoppedSet, SubWorkersStopped]
     @ map CleanupHookRun (cleanup_hooks env)
     @ map AtExitCallbackRun (at_exit_functions env)
     @ [ScopeExited]
     @ (if platform (isolate_data env) = None then [] else [TasksDrained])
     @ [EnvironmentDeleted]"

text \<open>
  What a step of a teardown that began in the state \<open>r\<close> observes, as the
  specification requires it: a cleanup hook sees the stop flag set and no sub-worker
  running, inside the context scope; an at-exit callback sees, besides, no cleanup
  hook left; the draining of the platform's tasks and the deletion happen outside
  that scope, on an environment that has not been deleted by this teardown.
\<close>

fun observes :: "runtime \<Rightarrow> step \<Rightarrow> observation \<Rightarrow> bool" where
  "observes r (CleanupHookRun h) ob =
     (seen_stopped ob \<and> seen_sub_workers ob = []
      \<and> seen_context_scopes ob = Suc (context_scopes r) \<and> seen_alive ob = alive r)"
| "observes r (AtExitCallbackRun f) ob =
     (seen_stopped ob \<and> seen_sub_workers ob = [] \<and> seen_cleanup_hooks ob = []
      \<and> seen_context_scopes ob = Suc (context_scopes r) \<and> seen_alive ob = alive r)"
| "observes r TasksDrained ob =
     (seen_stopped ob \<and> seen_sub_workers ob = [] \<and> seen_cleanup_hooks ob = []
      \<and> seen_context_scopes ob = context_scopes r \<and> seen_alive ob = alive r)"
| "observes r EnvironmentDeleted ob =
     (seen_context_scopes ob = context_scopes r \<and> seen_alive ob = alive r)"
| "observes r ScopeExited ob =
     (seen_stopped ob \<and> seen_sub_workers ob = [] \<and> seen_cleanup_hooks ob = []
      \<and> seen_context_scopes ob = Suc (context_scopes r))"
| "observes r s ob = True"

subsection \<open>Creation of an environment\<close>

text \<open>
  The constructor of \<^verbatim>\<open>Environment\<close>, \<^verbatim>\<open>Environment::RunBootstrapping\<close>, the
  engine's \<^verbatim>\<open>FunctionTemplate::GetFunction\<close> and \<^verbatim>\<open>ExecuteBootstrapper\<close> are defined
  outside this file: they are the parameters \<open>new_Environment\<close>, \<open>RunBootstrapping\<close>,
  \<open>GetFunction\<close> and \<open>ExecuteBootstrapper\<close>. \<open>RunBootstrapping\<close> and
  \<open>ExecuteBootstrapper\<close> return whether their \<^verbatim>\<open>MaybeLocal\<close> result holds a value, and
  the state they leave; \<open>GetFunction\<close> returns whether its \<^verbatim>\<open>MaybeLocal\<close> does.
  \<^verbatim>\<open>CreateEnvironment\<close> runs inside its own \<^verbatim>\<open>Context::Scope\<close>, which ends when it
  returns. The result is the pointer returned (\<open>None\<close> for \<^verbatim>\<open>nullptr\<close>, otherwise the
  environment pointed to) and the final state.

  \<^verbatim>\<open>bool should_run_prepare = flags & EnvironmentFlags::kPrepareForExecution;
  Context::Scope context_scope(context);
  Environment* env = new Environment(isolate_data, context, args, exec_args, flags, thread_id);
  if (flags & EnvironmentFlags::kOwnsProcessState) {
    env->set_abort_on_uncaught_exception(false);
  }
  if (env->RunBootstrapping().IsEmpty()) {
    FreeEnvironment(env);
    return nullptr;
  }
  if (!should_run_prepare) return env;
  std::vector<Local<String>> parameters = { ... };
  std::vector<Local<Value>> arguments = {
      env->native_module_require(),
      env->NewFunctionTemplate(MarkBootstrapComplete)
          ->GetFunction(env->context())
          .ToLocalChecked()};
  if (ExecuteBootstrapper(
          env, "internal/bootstrap/environment", &parameters, &arguments).IsEmpty()) {
    FreeEnvironment(env);
    return nullptr;
  }
  return env;\<close>
\<close>

definition set_abort_on_uncaught_exception :: "bool \<Rightarrow> runtime \<Rightarrow> runtime" where
  "set_abort_on_uncaught_exception v r =
     r\<lparr>environment := (environment r)\<lparr>abort_on_uncaught_exception := v\<rparr>\<rparr>"

definition constructed :: "Environment \<Rightarrow> runtime" where
  "constructed env = \<lparr>environment = env, alive = True, context_scopes = 1, trace = []\<rparr>"

definition return_from_scope :: "runtime \<Rightarrow> runtime" where
  "return_from_scope r = r\<lparr>context_scopes := context_scopes r - 1\<rparr>"

definition CreateEnvironment ::
  "(IsolateData \<Rightarrow> Context \<Rightarrow> string list \<Rightarrow> string list \<Rightarrow> EnvironmentFlag set \<Rightarrow> ThreadId
      \<Rightarrow> Environment)
   \<Rightarrow> (runtime \<Rightarrow> bool \<times> runtime)
   \<Rightarrow> (runtime \<Rightarrow> bool)
   \<Rightarrow> (string \<Rightarrow> runtime \<Rightarrow> bool \<times> runtime)
   \<Rightarrow> IsolateData \<Rightarrow> Context \<Rightarrow> string list \<Rightarrow> string list \<Rightarrow> EnvironmentFlag set \<Rightarrow> ThreadId
   \<Rightarrow> fatal + (Environment option \<times> runtime)" where
  "CreateEnvironment new_Environment RunBootstrapping GetFunction ExecuteBootstrapper
       isolate_data' context args exec_args flags thread_id =
     (let should_run_prepare = (kPrepareForExecution \<in> flags);
          env = constructed (new_Environment isolate_data' context args exec_args flags thread_id);
          env1 = (if kOwnsProcessState \<in> flags
                  then set_abort_on_uncaught_exception False env else env)
      in case RunBootstrapping env1 of
           (False, env2) \<Rightarrow> Inr (None, return_from_scope (FreeEnvironment env2))
         | (True, env2) \<Rightarrow>
             if \<not> should_run_prepare then Inr (Some (environment env2), return_from_scope env2)
             else if \<not> GetFunction env2 then Inl ToLocalCheckedOnEmpty
             else
               (case ExecuteBootstrapper ''internal/bootstrap/environment'' env2 of
                  (False, env3) \<Rightarrow> Inr (None, return_from_scope (FreeEnvironment env3))
                | (True, env3) \<Rightarrow> Inr (Some (environment env3), return_from_scope env3)))"

text \<open>
  For the examples: a constructor that makes a \<open>running_worker\<close> on the isolate
  data it is given, a bootstrap that fails after registering a cleanup hook,
  bootstraps that succeed and change nothing, and a \<open>GetFunction\<close> that yields its
  function.
\<close>

definition worker_constructor ::
  "IsolateData \<Rightarrow> Context \<Rightarrow> string list \<Rightarrow> string list \<Rightarrow> EnvironmentFlag set \<Rightarrow> ThreadId
     \<Rightarrow> Environment" where
  "worker_constructor isolate_data' context args exec_args flags thread_id =
     running_worker\<lparr>isolate_data := isolate_data'\<rparr>"

definition failing_bootstrap :: "runtime \<Rightarrow> bool \<times> runtime" where
  "failing_bootstrap r =
     (False, r\<lparr>environment := (environment r)\<lparr>cleanup_hooks := 9 # cleanup_hooks (environment r)\<rparr>\<rparr>)"

definition succeeding_bootstrap :: "runtime \<Rightarrow> bool \<times> runtime" where
  "succeeding_bootstrap r = (True, r)"

definition failing_bootstrapper :: "string \<Rightarrow> runtime \<Rightarrow> bool \<times> runtime" where
  "failing_bootstrapper name r = (False, r)"

definition succeeding_bootstrapper :: "string \<Rightarrow> runtime \<Rightarrow> bool \<times> runtime" where
  "succeeding_bootstrapper name r = (True, r)"

definition function_found :: "runtime \<Rightarrow> bool" where
  "function_found r = True"

section \<open>Properties\<close>

subsection \<open>Free on the debug-tracking allocator\<close>

text \<open>
  C4, as the specification states it, fails: a record of size 0 is not exempt from
  the comparison of sizes. Freeing the pointer of a size-0 record with the size 64 is
  fatal: the code tests the size passed to \<^verbatim>\<open>Free\<close>, not the size recorded.
\<close>

theorem size_zero_record_is_compared:
  "(16 :: pointer) \<noteq> nullptr
   \<and> allocations \<lparr>allocations = [16 \<mapsto> 0], base_calls = []\<rparr> 16 = Some 0
   \<and> Free 16 64 \<lparr>allocations = [16 \<mapsto> 0], base_calls = []\<rparr> = Inl CheckFailed"
  by (simp add: Free_def UnregisterPointerInternal_def nullptr_def)

text \<open>
  C4, amended. For a call \<open>Free data sz\<close> with a non-null pointer: when the pointer
  has no tracking record the call is fatal; when \<open>sz > 0\<close> and the recorded size
  differs from \<open>sz\<close> the call is fatal, also when the recorded size is 0; in every
  other case (the record exists and either the size passed is 0, which exempts the
  call from the comparison whatever the recorded size, or the sizes agree) the call
  succeeds, exactly the record of \<open>data\<close> is removed, and the memory is released by
  forwarding \<open>Free data sz\<close> to the base allocator as the last forwarded call.
  A fatal call forwards nothing.
\<close>

theorem Free_checks_record_and_size:
  assumes "data \<noteq> nullptr"
  shows "(allocations a data = None \<longrightarrow> Free data sz a = Inl CheckFailed)
       \<and> (\<forall>recorded. allocations a data = Some recorded \<and> 0 < sz \<and> recorded \<noteq> sz
            \<longrightarrow> Free data sz a = Inl CheckFailed)
       \<and> (\<forall>recorded. allocations a data = Some recorded \<and> (sz = 0 \<or> recorded = sz)
            \<longrightarrow> Free data sz a =
                  Inr \<lparr>allocations = (allocations a)(data := None),
                       base_calls = base_calls a @ [BaseFree data sz]\<rparr>)"
  using assms
  by (auto simp: Free_def UnregisterPointerInternal_def forward_def word_gt_0)

theorem Free_checks_record_and_size_witness:
  "(16 :: pointer) \<noteq> nullptr
   \<and> Free 16 64 \<lparr>allocations = Map.empty, base_calls = []\<rparr> = Inl CheckFailed
   \<and> Free 16 32 \<lparr>allocations = [16 \<mapsto> 64], base_calls = []\<rparr> = Inl CheckFailed
   \<and> Free 16 64 \<lparr>allocations = [16 \<mapsto> 64], base_calls = []\<rparr>
       = Inr \<lparr>allocations = [16 \<mapsto> 64](16 := None), base_calls = [BaseFree 16 64]\<rparr>
   \<and> Free 16 0 \<lparr>allocations = [16 \<mapsto> 1], base_calls = []\<rparr>
       = Inr \<lparr>allocations = [16 \<mapsto> 1](16 := None), base_calls = [BaseFree 16 0]\<rparr>
   \<and> Free 16 0 \<lparr>allocations = [16 \<mapsto> 0], base_calls = []\<rparr>
       = Inr \<lparr>allocations = [16 \<mapsto> 0](16 := None), base_calls = [BaseFree 16 0]\<rparr>
   \<and> Free 16 1 \<lparr>allocations = [16 \<mapsto> 0], base_calls = []\<rparr> = Inl CheckFailed"
proof -
  have n: "(16 :: pointer) \<noteq> nullptr" by (simp add: nullptr_def)
  show ?thesis
    using n
      Free_checks_record_and_size [OF n, of "\<lparr>allocations = Map.empty, base_calls = []\<rparr>" 64]
      Free_checks_record_and_size [OF n, of "\<lparr>allocations = [16 \<mapsto> 64], base_calls = []\<rparr>" 32]
      Free_checks_record_and_size [OF n, of "\<lparr>allocations = [16 \<mapsto> 64], base_calls = []\<rparr>" 64]
      Free_checks_record_and_size [OF n, of "\<lparr>allocations = [16 \<mapsto> 1], base_calls = []\<rparr>" 0]
      Free_checks_record_and_size [OF n, of "\<lparr>allocations = [16 \<mapsto> 0], base_calls = []\<rparr>" 0]
      Free_checks_record_and_size [OF n, of "\<lparr>allocations = [16 \<mapsto> 0], base_calls = []\<rparr>" 1]
    by simp
qed

subsection \<open>Reallocate on the debug-tracking allocator\<close>

text \<open>
  C5. \<open>Reallocate ret data old_size sz\<close>, where \<open>ret\<close> is what the underlying
  reallocation returned:
  \<^item> \<open>ret\<close> null and \<open>sz = 0\<close>: the tracking map and the fatal checks are those of
    \<open>Free data old_size\<close>, and null is returned; so the record of a tracked \<open>data\<close>
    whose size passes the check is removed;
  \<^item> \<open>ret\<close> null and \<open>sz > 0\<close>: the map is left as it is and null is returned;
  \<^item> \<open>ret\<close> non-null: the record of \<open>data\<close> is removed (only when \<open>data\<close> is
    non-null; a non-null \<open>data\<close> without a record is fatal) and the record
    \<open>ret \<mapsto> sz\<close> is inserted (fatal when \<open>ret\<close> is still tracked after the removal).
  Scenario: allocating 64 bytes at \<open>p\<close> and reallocating to 128 bytes at \<open>q\<close> leaves
  the map as it was before the allocation but for the one record \<open>q \<mapsto> 128\<close>; the
  record \<open>p \<mapsto> 64\<close> is gone.
\<close>

theorem Reallocate_tracking:
  "(ret = nullptr \<and> sz = 0 \<longrightarrow>
      map_sum id (\<lambda>(p, a'). (p, allocations a')) (Reallocate ret data old_size sz a)
        = map_sum id (\<lambda>a'. (nullptr, allocations a')) (Free data old_size a))
   \<and> (ret = nullptr \<and> sz = 0 \<and> data \<noteq> nullptr \<and> allocations a data = Some r
        \<and> (old_size = 0 \<or> r = old_size) \<longrightarrow>
      Reallocate ret data old_size sz a =
        Inr (nullptr, \<lparr>allocations = (allocations a)(data := None),
                       base_calls = base_calls a @ [BaseReallocate data old_size sz]\<rparr>))
   \<and> (ret = nullptr \<and> sz \<noteq> 0 \<longrightarrow>
      Reallocate ret data old_size sz a =
        Inr (nullptr, \<lparr>allocations = allocations a,
                       base_calls = base_calls a @ [BaseReallocate data old_size sz]\<rparr>))
   \<and> (ret \<noteq> nullptr \<and> data = nullptr \<and> allocations a ret = None \<longrightarrow>
      Reallocate ret data old_size sz a =
        Inr (ret, \<lparr>allocations = (allocations a)(ret \<mapsto> sz),
                   base_calls = base_calls a @ [BaseReallocate data old_size sz]\<rparr>))
   \<and> (ret \<noteq> nullptr \<and> data \<noteq> nullptr \<and> allocations a data \<noteq> None
        \<and> (ret = data \<or> allocations a ret = None) \<longrightarrow>
      Reallocate ret data old_size sz a =
        Inr (ret, \<lparr>allocations = ((allocations a)(data := None))(ret \<mapsto> sz),
                   base_calls = base_calls a @ [BaseReallocate data old_size sz]\<rparr>))
   \<and> (ret \<noteq> nullptr \<and> data \<noteq> nullptr \<and> allocations a data = None \<longrightarrow>
      Reallocate ret data old_size sz a = Inl CheckFailed)
   \<and> (ret \<noteq> nullptr \<and> ret \<noteq> data \<and> allocations a ret \<noteq> None \<longrightarrow>
      Reallocate ret data old_size sz a = Inl CheckFailed)
   \<and> (p \<noteq> nullptr \<and> q \<noteq> nullptr \<and> allocations a p = None \<and> (q = p \<or> allocations a q = None) \<longrightarrow>
      (case Allocate p 64 a of
         Inl e \<Rightarrow> Inl e
       | Inr (p', a1) \<Rightarrow> Reallocate q p' 64 128 a1) =
        Inr (q, \<lparr>allocations = (allocations a)(q \<mapsto> 128),
                 base_calls = base_calls a @ [BaseAllocate 64, BaseReallocate p 64 128]\<rparr>))"
proof (intro conjI impI)
  assume "ret = nullptr \<and> sz = 0"
  then show "map_sum id (\<lambda>(p, a'). (p, allocations a')) (Reallocate ret data old_size sz a)
        = map_sum id (\<lambda>a'. (nullptr, allocations a')) (Free data old_size a)"
    by (auto simp: Reallocate_def Free_def UnregisterPointerInternal_def forward_def Let_def
        split: option.splits)
next
  assume "ret = nullptr \<and> sz = 0 \<and> data \<noteq> nullptr \<and> allocations a data = Some r
        \<and> (old_size = 0 \<or> r = old_size)"
  then show "Reallocate ret data old_size sz a =
        Inr (nullptr, \<lparr>allocations = (allocations a)(data := None),
                       base_calls = base_calls a @ [BaseReallocate data old_size sz]\<rparr>)"
    by (auto simp: Reallocate_def Let_def UnregisterPointerInternal_def forward_def)
next
  assume "ret = nullptr \<and> sz \<noteq> 0"
  then show "Reallocate ret data old_size sz a =
        Inr (nullptr, \<lparr>allocations = allocations a,
                       base_calls = base_calls a @ [BaseReallocate data old_size sz]\<rparr>)"
    by (simp add: Reallocate_def Let_def forward_def)
next
  assume "ret \<noteq> nullptr \<and> data = nullptr \<and> allocations a ret = None"
  then show "Reallocate ret data old_size sz a =
        Inr (ret, \<lparr>allocations = (allocations a)(ret \<mapsto> sz),
                   base_calls = base_calls a @ [BaseReallocate data old_size sz]\<rparr>)"
    by (simp add: Reallocate_def Let_def erase_checked_def RegisterPointerInternal_def forward_def)
next
  assume "ret \<noteq> nullptr \<and> data \<noteq> nullptr \<and> allocations a data \<noteq> None
        \<and> (ret = data \<or> allocations a ret = None)"
  then show "Reallocate ret data old_size sz a =
        Inr (ret, \<lparr>allocations = ((allocations a)(data := None))(ret \<mapsto> sz),
                   base_calls = base_calls a @ [BaseReallocate data old_size sz]\<rparr>)"
    by (auto simp: Reallocate_def Let_def erase_checked_def RegisterPointerInternal_def forward_def)
next
  assume "ret \<noteq> nullptr \<and> data \<noteq> nullptr \<and> allocations a data = None"
  then show "Reallocate ret data old_size sz a = Inl CheckFailed"
    by (simp add: Reallocate_def Let_def erase_checked_def forward_def)
next
  assume "ret \<noteq> nullptr \<and> ret \<noteq> data \<and> allocations a ret \<noteq> None"
  then show "Reallocate ret data old_size sz a = Inl CheckFailed"
    by (auto simp: Reallocate_def Let_def erase_checked_def RegisterPointerInternal_def forward_def
        split: option.splits)
next
  assume h: "p \<noteq> nullptr \<and> q \<noteq> nullptr \<and> allocations a p = None
        \<and> (q = p \<or> allocations a q = None)"
  then have "(allocations a)(p := None) = allocations a"
    by (simp add: fun_eq_iff)
  with h show "(case Allocate p 64 a of
         Inl e \<Rightarrow> Inl e
       | Inr (p', a1) \<Rightarrow> Reallocate q p' 64 128 a1) =
        Inr (q, \<lparr>allocations = (allocations a)(q \<mapsto> 128),
                 base_calls = base_calls a @ [BaseAllocate 64, BaseReallocate p 64 128]\<rparr>)"
    by (auto simp: Allocate_def Reallocate_def Let_def erase_checked_def RegisterPointerInternal_def
        forward_def)
qed

theorem Reallocate_tracking_witness:
  "(case Allocate 16 64 \<lparr>allocations = Map.empty, base_calls = []\<rparr> of
      Inl e \<Rightarrow> Inl e
    | Inr (p', a1) \<Rightarrow> Reallocate 4096 p' 64 128 a1)
     = Inr (4096, \<lparr>allocations = [4096 \<mapsto> 128],
                   base_calls = [BaseAllocate 64, BaseReallocate 16 64 128]\<rparr>)
   \<and> [4096 \<mapsto> (128 :: size_t)] (16 :: pointer) = None
   \<and> Reallocate nullptr 16 64 0 \<lparr>allocations = [16 \<mapsto> 64], base_calls = []\<rparr>
     = Inr (nullptr, \<lparr>allocations = [16 \<mapsto> 64](16 := None),
                      base_calls = [BaseReallocate 16 64 0]\<rparr>)
   \<and> Reallocate nullptr 16 64 128 \<lparr>allocations = [16 \<mapsto> 64], base_calls = []\<rparr>
     = Inr (nullptr, \<lparr>allocations = [16 \<mapsto> 64],
                      base_calls = [BaseReallocate 16 64 128]\<rparr>)"
proof -
  have n: "(16 :: pointer) \<noteq> nullptr" "(4096 :: pointer) \<noteq> nullptr" "(128 :: size_t) \<noteq> 0"
    by (simp_all add: nullptr_def)
  show ?thesis
    using n
      Reallocate_tracking [of 4096 128 16 64 "\<lparr>allocations = Map.empty, base_calls = []\<rparr>" 64 16 4096]
      Reallocate_tracking [of nullptr 0 16 64 "\<lparr>allocations = [16 \<mapsto> 64], base_calls = []\<rparr>" 64 16 16]
      Reallocate_tracking [of nullptr 128 16 64 "\<lparr>allocations = [16 \<mapsto> 64], base_calls = []\<rparr>" 64 16 16]
    by simp
qed

subsection \<open>The tracking map, from construction to destruction\<close>

lemma perform_balance:
  "perform c a = Inr a' \<Longrightarrow> p \<noteq> nullptr \<Longrightarrow>
   count_list (returned c) p + tracked a p = count_list (released c) p + tracked a' p"
  by (cases c)
     (auto simp: tracked_def Allocate_def AllocateUninitialized_def Free_def Reallocate_def
        RegisterPointerInternal_def UnregisterPointerInternal_def erase_checked_def forward_def Let_def
        split: if_splits option.splits sum.splits)

lemma perform_all_balance:
  "perform_all cs a = Inr a' \<Longrightarrow> p \<noteq> nullptr \<Longrightarrow>
   count_list (concat (map returned cs)) p + tracked a p
     = count_list (concat (map released cs)) p + tracked a' p"
proof (induction cs arbitrary: a)
  case Nil
  then show ?case by simp
next
  case (Cons c cs)
  from Cons.prems(1) obtain a1 where s: "perform c a = Inr a1" and r: "perform_all cs a1 = Inr a'"
    by (auto split: sum.splits)
  from perform_balance [OF s Cons.prems(2)] Cons.IH [OF r Cons.prems(2)]
  show ?case by simp
qed

lemma perform_null_untracked:
  "perform c a = Inr a' \<Longrightarrow> allocations a nullptr = None \<Longrightarrow> allocations a' nullptr = None"
  by (cases c)
     (auto simp: Allocate_def AllocateUninitialized_def Free_def Reallocate_def
        RegisterPointerInternal_def UnregisterPointerInternal_def erase_checked_def forward_def Let_def
        split: if_splits option.splits sum.splits)

lemma perform_all_null_untracked:
  "perform_all cs a = Inr a' \<Longrightarrow> allocations a nullptr = None \<Longrightarrow> allocations a' nullptr = None"
proof (induction cs arbitrary: a)
  case Nil
  then show ?case by simp
next
  case (Cons c cs)
  then show ?case
    by (auto split: sum.splits dest: perform_null_untracked)
qed

lemma perform_all_append:
  "perform_all (xs @ ys) a =
     (case perform_all xs a of Inl e \<Rightarrow> Inl e | Inr a' \<Rightarrow> perform_all ys a')"
  by (induction xs arbitrary: a) (auto split: sum.splits)

lemma allocate_each_tracks:
  "distinct (map fst ps) \<Longrightarrow> nullptr \<notin> fst ` set ps \<Longrightarrow>
   \<forall>p \<in> fst ` set ps. allocations a p = None \<Longrightarrow>
   \<exists>a'. perform_all (allocate_each ps) a = Inr a' \<and> allocations a' = allocations a ++ map_of ps"
proof (induction ps arbitrary: a)
  case Nil
  then show ?case by (simp add: allocate_each_def)
next
  case (Cons x ps)
  obtain p n where x: "x = (p, n)" by (cases x)
  let ?a1 = "\<lparr>allocations = (allocations a)(p \<mapsto> n), base_calls = base_calls a @ [BaseAllocate n]\<rparr>"
  have pn: "p \<noteq> nullptr" and pu: "allocations a p = None"
    using Cons.prems x by auto
  have step: "perform (CallAllocate p n) a = Inr ?a1"
    using pn pu
    by (simp add: Allocate_def RegisterPointerInternal_def forward_def)
  have d': "distinct (map fst ps)" and nn': "nullptr \<notin> fst ` set ps"
    and pp: "p \<notin> fst ` set ps"
    using Cons.prems x by auto
  have "\<forall>q \<in> fst ` set ps. allocations ?a1 q = None"
    using Cons.prems(3) pp by auto
  from Cons.IH [OF d' nn' this] obtain a' where
    r: "perform_all (allocate_each ps) ?a1 = Inr a'"
    and m: "allocations a' = allocations ?a1 ++ map_of ps"
    by blast
  have "map_of ps p = None"
    using pp by (simp add: map_of_eq_None_iff)
  then have "(allocations a)(p \<mapsto> n) ++ map_of ps = allocations a ++ map_of ((p, n) # ps)"
    by (auto simp: map_add_def fun_eq_iff split: option.splits)
  with m have "allocations a' = allocations a ++ map_of (x # ps)"
    using x by simp
  moreover have "perform_all (allocate_each (x # ps)) a = Inr a'"
    using r step x by (simp add: allocate_each_def)
  ultimately show ?case by blast
qed

lemma free_each_untracks:
  "distinct (map fst qs) \<Longrightarrow>
   \<forall>(p, n) \<in> set qs. p \<noteq> nullptr \<and> allocations a p = Some n \<Longrightarrow>
   \<exists>a'. perform_all (free_each qs) a = Inr a' \<and> allocations a' = allocations a |` (- fst ` set qs)"
proof (induction qs arbitrary: a)
  case Nil
  then show ?case by (simp add: free_each_def)
next
  case (Cons x qs)
  obtain p n where x: "x = (p, n)" by (cases x)
  let ?a1 = "\<lparr>allocations = (allocations a)(p := None), base_calls = base_calls a @ [BaseFree p n]\<rparr>"
  have pn: "p \<noteq> nullptr" and pt: "allocations a p = Some n"
    using Cons.prems x by auto
  have step: "perform (CallFree p n) a = Inr ?a1"
    using pn pt
    by (simp add: Free_def UnregisterPointerInternal_def forward_def)
  have pq: "p \<notin> fst ` set qs"
    using Cons.prems(1) x by simp
  have "\<forall>(q, k) \<in> set qs. q \<noteq> nullptr \<and> allocations ?a1 q = Some k"
  proof (clarify)
    fix q k assume m: "(q, k) \<in> set qs"
    then have "q \<noteq> p" using pq by (metis fst_conv image_eqI)
    moreover have "q \<noteq> nullptr \<and> allocations a q = Some k"
      using Cons.prems(2) m by auto
    ultimately show "q \<noteq> nullptr \<and> allocations ?a1 q = Some k" by simp
  qed
  moreover have "distinct (map fst qs)"
    using Cons.prems(1) by simp
  ultimately obtain a' where
    r: "perform_all (free_each qs) ?a1 = Inr a'"
    and m: "allocations a' = allocations ?a1 |` (- fst ` set qs)"
    using Cons.IH [of ?a1] by blast
  have "(allocations a)(p := None) |` (- fst ` set qs) = allocations a |` (- fst ` set ((p, n) # qs))"
    by (auto simp: restrict_map_def fun_eq_iff)
  with m have "allocations a' = allocations a |` (- fst ` set (x # qs))"
    using x by simp
  moreover have "perform_all (free_each (x # qs)) a = Inr a'"
    using r step x by (simp add: free_each_def)
  ultimately show ?case by blast
qed

lemma pairs_leave_empty:
  assumes d: "distinct (map fst ps)" and nn: "nullptr \<notin> fst ` set ps"
    and e: "allocations a = Map.empty" and q: "set qs = set ps" and dq: "distinct (map fst qs)"
  shows "\<exists>a'. perform_all (allocate_each ps @ free_each qs) a = Inr a'
           \<and> allocations a' = Map.empty \<and> destroy a' = Inr ()"
proof -
  from allocate_each_tracks [OF d nn, of a] e obtain a1 where
    r1: "perform_all (allocate_each ps) a = Inr a1" and m1: "allocations a1 = map_of ps"
    by auto
  have "\<forall>(p, n) \<in> set qs. p \<noteq> nullptr \<and> allocations a1 p = Some n"
    using d nn q m1 by (auto simp: rev_image_eqI)
  from free_each_untracks [OF dq this] obtain a2 where
    r2: "perform_all (free_each qs) a1 = Inr a2"
    and m2: "allocations a2 = allocations a1 |` (- fst ` set qs)"
    by auto
  have "allocations a2 = Map.empty"
    using m1 m2 q by (auto simp: restrict_map_def fun_eq_iff map_of_eq_None_iff)
  with r1 r2 show ?thesis
    by (simp add: perform_all_append destroy_def)
qed

text \<open>
  C6. A null pointer from the base allocator is not recorded; a non-null pointer that
  is already tracked is fatal to insert; otherwise the record \<open>ret \<mapsto> sz\<close> is
  inserted. The destructor is fatal unless the map is empty. Over any run of calls
  that starts from an empty map and meets no fatal check, a non-null pointer has been
  returned exactly once more than it has been released when it is in the map, and
  exactly as often when it is not: a pointer handed out stays in the map, once,
  until it is freed. When every pointer has been released as often as returned the
  map is empty and the destructor's check passes; and allocating blocks at distinct
  non-null pointers and freeing each of them, in any order, with the size it was
  allocated with, meets no fatal check and ends with the map empty.
\<close>

theorem tracking_map_invariant:
  "Allocate nullptr sz a = Inr (nullptr, forward (BaseAllocate sz) a)
   \<and> AllocateUninitialized nullptr sz a = Inr (nullptr, forward (BaseAllocateUninitialized sz) a)
   \<and> (ret \<noteq> nullptr \<and> allocations a ret \<noteq> None \<longrightarrow>
        Allocate ret sz a = Inl CheckFailed \<and> AllocateUninitialized ret sz a = Inl CheckFailed)
   \<and> (ret \<noteq> nullptr \<and> allocations a ret = None \<longrightarrow>
        Allocate ret sz a =
          Inr (ret, \<lparr>allocations = (allocations a)(ret \<mapsto> sz),
                     base_calls = base_calls a @ [BaseAllocate sz]\<rparr>)
        \<and> AllocateUninitialized ret sz a =
          Inr (ret, \<lparr>allocations = (allocations a)(ret \<mapsto> sz),
                     base_calls = base_calls a @ [BaseAllocateUninitialized sz]\<rparr>))
   \<and> destroy a = (if allocations a = Map.empty then Inr () else Inl CheckFailed)
   \<and> (allocations a0 = Map.empty \<and> perform_all cs a0 = Inr a' \<and> p \<noteq> nullptr \<longrightarrow>
        count_list (concat (map returned cs)) p
          = count_list (concat (map released cs)) p + (if p \<in> dom (allocations a') then 1 else 0))
   \<and> (allocations a0 = Map.empty \<and> perform_all cs a0 = Inr a'
        \<and> (\<forall>p. count_list (concat (map returned cs)) p = count_list (concat (map released cs)) p) \<longrightarrow>
        allocations a' = Map.empty \<and> destroy a' = Inr ())
   \<and> (allocations a0 = Map.empty \<and> distinct (map fst ps) \<and> nullptr \<notin> fst ` set ps
        \<and> set qs = set ps \<and> distinct (map fst qs) \<longrightarrow>
        (\<exists>a'. perform_all (allocate_each ps @ free_each qs) a0 = Inr a'
           \<and> allocations a' = Map.empty \<and> destroy a' = Inr ()))"
proof -
  have reg: "Allocate nullptr sz a = Inr (nullptr, forward (BaseAllocate sz) a)"
    "AllocateUninitialized nullptr sz a = Inr (nullptr, forward (BaseAllocateUninitialized sz) a)"
    "ret \<noteq> nullptr \<and> allocations a ret \<noteq> None \<longrightarrow>
        Allocate ret sz a = Inl CheckFailed \<and> AllocateUninitialized ret sz a = Inl CheckFailed"
    "ret \<noteq> nullptr \<and> allocations a ret = None \<longrightarrow>
        Allocate ret sz a =
          Inr (ret, \<lparr>allocations = (allocations a)(ret \<mapsto> sz),
                     base_calls = base_calls a @ [BaseAllocate sz]\<rparr>)
        \<and> AllocateUninitialized ret sz a =
          Inr (ret, \<lparr>allocations = (allocations a)(ret \<mapsto> sz),
                     base_calls = base_calls a @ [BaseAllocateUninitialized sz]\<rparr>)"
    by (auto simp: Allocate_def AllocateUninitialized_def RegisterPointerInternal_def forward_def)
  have des: "destroy a = (if allocations a = Map.empty then Inr () else Inl CheckFailed)"
    by (simp add: destroy_def)
  have bal: "count_list (concat (map returned cs)) p
          = count_list (concat (map released cs)) p + (if p \<in> dom (allocations a') then 1 else 0)"
    if "allocations a0 = Map.empty" "perform_all cs a0 = Inr a'" "p \<noteq> nullptr" for p
    using perform_all_balance [OF that(2) that(3)] that(1)
    by (auto simp: tracked_def)
  have emp: "allocations a' = Map.empty \<and> destroy a' = Inr ()"
    if e: "allocations a0 = Map.empty" and r: "perform_all cs a0 = Inr a'"
      and b: "\<forall>p. count_list (concat (map returned cs)) p = count_list (concat (map released cs)) p"
  proof -
    have "allocations a' x = None" for x
    proof (cases "x = nullptr")
      case True
      then show ?thesis using perform_all_null_untracked [OF r] e by simp
    next
      case False
      from perform_all_balance [OF r False] e b show ?thesis
        by (auto simp: tracked_def split: if_splits)
    qed
    then have "allocations a' = Map.empty" by (simp add: fun_eq_iff)
    then show ?thesis by (simp add: destroy_def)
  qed
  have prs: "\<exists>a'. perform_all (allocate_each ps @ free_each qs) a0 = Inr a'
           \<and> allocations a' = Map.empty \<and> destroy a' = Inr ()"
    if "allocations a0 = Map.empty" "distinct (map fst ps)" "nullptr \<notin> fst ` set ps"
       "set qs = set ps" "distinct (map fst qs)"
    using pairs_leave_empty [OF that(2) that(3) that(1) that(4) that(5)] .
  show ?thesis
    using reg des bal emp prs by blast
qed

theorem tracking_map_invariant_witness:
  "Allocate 16 64 \<lparr>allocations = [16 \<mapsto> 64], base_calls = []\<rparr> = Inl CheckFailed
   \<and> Allocate 16 64 \<lparr>allocations = Map.empty, base_calls = []\<rparr>
       = Inr (16, \<lparr>allocations = [16 \<mapsto> 64], base_calls = [BaseAllocate 64]\<rparr>)
   \<and> destroy \<lparr>allocations = [16 \<mapsto> 64], base_calls = []\<rparr> = Inl CheckFailed
   \<and> (\<exists>a'. perform_all [CallAllocate 16 64, CallAllocate 32 8, CallFree 32 8, CallFree 16 64]
               \<lparr>allocations = Map.empty, base_calls = []\<rparr> = Inr a'
           \<and> allocations a' = Map.empty \<and> destroy a' = Inr ())"
proof -
  have n: "(16 :: pointer) \<noteq> nullptr" by (simp add: nullptr_def)
  have h: "allocations \<lparr>allocations = Map.empty, base_calls = []\<rparr> = Map.empty
      \<and> distinct (map fst [(16 :: pointer, 64 :: size_t), (32, 8)])
      \<and> nullptr \<notin> fst ` set [(16 :: pointer, 64 :: size_t), (32, 8)]
      \<and> set [(32 :: pointer, 8 :: size_t), (16, 64)] = set [(16, 64), (32, 8)]
      \<and> distinct (map fst [(32 :: pointer, 8 :: size_t), (16, 64)])"
    by (auto simp: nullptr_def)
  have ne: "[16 \<mapsto> 64] \<noteq> (Map.empty :: pointer \<rightharpoonup> size_t)" by simp
  show ?thesis
    using n h ne
      tracking_map_invariant [of 64 "\<lparr>allocations = [16 \<mapsto> 64], base_calls = []\<rparr>" 16
        "\<lparr>allocations = Map.empty, base_calls = []\<rparr>" "[]" "\<lparr>allocations = Map.empty, base_calls = []\<rparr>" 16
        "[(16, 64), (32, 8)]" "[(32, 8), (16, 64)]"]
      tracking_map_invariant [of 64 "\<lparr>allocations = Map.empty, base_calls = []\<rparr>" 16
        "\<lparr>allocations = Map.empty, base_calls = []\<rparr>" "[]" "\<lparr>allocations = Map.empty, base_calls = []\<rparr>" 16
        "[(16, 64), (32, 8)]" "[(32, 8), (16, 64)]"]
    by (simp add: allocate_each_def free_each_def)
qed

subsection \<open>Default heap sizing\<close>

text \<open>
  C3, as the specification states it, fails: on a host with 8 GiB of memory and no
  container constraint the heap defaults are configured (from the 8 GiB), they are
  not left to the engine's built-in values.
\<close>

theorem unconstrained_host_is_configured:
  "uv_get_constrained_memory unconstrained_host = 0
   \<and> SetIsolateCreateParamsForNode unconstrained_host fresh_params \<noteq> fresh_params
   \<and> configured_defaults (constraints (SetIsolateCreateParamsForNode unconstrained_host fresh_params))
       = Some (8589934592, 0)"
  by (simp add: SetIsolateCreateParamsForNode_def unconstrained_host_def fresh_params_def
      ConfigureDefaults_def)

text \<open>
  C3, amended. The effective memory is the lesser of the total memory of the host
  (\<^verbatim>\<open>uv_get_total_memory\<close>) and the container constraint when a constraint is
  reported (non-zero), and the total memory of the host when none is. When the
  effective memory is non-zero the heap defaults are configured from it, with no
  virtual memory limit; the parameters are left untouched exactly when the effective
  memory is 0, which is when the total memory is reported as 0.
\<close>

theorem SetIsolateCreateParamsForNode_effective_memory:
  "(0 < uv_get_constrained_memory uv \<and> 0 < uv_get_total_memory uv \<longrightarrow>
      SetIsolateCreateParamsForNode uv params =
        params\<lparr>constraints := ConfigureDefaults
          (min (uv_get_total_memory uv) (uv_get_constrained_memory uv)) 0 (constraints params)\<rparr>)
   \<and> (uv_get_constrained_memory uv = 0 \<and> 0 < uv_get_total_memory uv \<longrightarrow>
      SetIsolateCreateParamsForNode uv params =
        params\<lparr>constraints := ConfigureDefaults (uv_get_total_memory uv) 0 (constraints params)\<rparr>)
   \<and> (uv_get_total_memory uv = 0 \<longrightarrow> SetIsolateCreateParamsForNode uv params = params)
   \<and> (configured_defaults (constraints params) = None \<longrightarrow>
        (SetIsolateCreateParamsForNode uv params = params) = (uv_get_total_memory uv = 0))"
proof (intro conjI impI)
  assume h: "0 < uv_get_constrained_memory uv \<and> 0 < uv_get_total_memory uv"
  then have "0 < min (uv_get_total_memory uv) (uv_get_constrained_memory uv)"
    by (simp add: min_def)
  with h show "SetIsolateCreateParamsForNode uv params =
        params\<lparr>constraints := ConfigureDefaults
          (min (uv_get_total_memory uv) (uv_get_constrained_memory uv)) 0 (constraints params)\<rparr>"
    by (simp add: SetIsolateCreateParamsForNode_def Let_def)
next
  assume "uv_get_constrained_memory uv = 0 \<and> 0 < uv_get_total_memory uv"
  then show "SetIsolateCreateParamsForNode uv params =
        params\<lparr>constraints := ConfigureDefaults (uv_get_total_memory uv) 0 (constraints params)\<rparr>"
    by (simp add: SetIsolateCreateParamsForNode_def Let_def)
next
  assume "uv_get_total_memory uv = 0"
  then show "SetIsolateCreateParamsForNode uv params = params"
    by (simp add: SetIsolateCreateParamsForNode_def Let_def min_def)
next
  assume n: "configured_defaults (constraints params) = None"
  show "(SetIsolateCreateParamsForNode uv params = params) = (uv_get_total_memory uv = 0)"
  proof
    assume e: "SetIsolateCreateParamsForNode uv params = params"
    show "uv_get_total_memory uv = 0"
    proof (rule ccontr)
      assume "uv_get_total_memory uv \<noteq> 0"
      then have t: "0 < uv_get_total_memory uv" by (simp add: word_gt_0)
      have "configured_defaults (constraints (SetIsolateCreateParamsForNode uv params)) \<noteq> None"
        using t
        by (auto simp: SetIsolateCreateParamsForNode_def Let_def ConfigureDefaults_def min_def
            word_gt_0)
      with e n show False by simp
    qed
  next
    assume "uv_get_total_memory uv = 0"
    then show "SetIsolateCreateParamsForNode uv params = params"
      by (simp add: SetIsolateCreateParamsForNode_def Let_def min_def)
  qed
qed

theorem SetIsolateCreateParamsForNode_effective_memory_witness:
  "SetIsolateCreateParamsForNode
      \<lparr>uv_get_total_memory = 8589934592, uv_get_constrained_memory = 1073741824\<rparr> fresh_params
     = \<lparr>constraints = \<lparr>configured_defaults = Some (1073741824, 0)\<rparr>\<rparr>
   \<and> SetIsolateCreateParamsForNode unconstrained_host fresh_params
     = \<lparr>constraints = \<lparr>configured_defaults = Some (8589934592, 0)\<rparr>\<rparr>
   \<and> SetIsolateCreateParamsForNode
      \<lparr>uv_get_total_memory = 0, uv_get_constrained_memory = 1073741824\<rparr> fresh_params
     = fresh_params"
  using
    SetIsolateCreateParamsForNode_effective_memory
      [of "\<lparr>uv_get_total_memory = 8589934592, uv_get_constrained_memory = 1073741824\<rparr>" fresh_params]
    SetIsolateCreateParamsForNode_effective_memory [of unconstrained_host fresh_params]
    SetIsolateCreateParamsForNode_effective_memory
      [of "\<lparr>uv_get_total_memory = 0, uv_get_constrained_memory = 1073741824\<rparr>" fresh_params]
  by (simp add: unconstrained_host_def fresh_params_def ConfigureDefaults_def)

subsection \<open>The default abort-on-uncaught-exception predicate\<close>

text \<open>
  C7. The predicate is true exactly when the isolate has a current environment, that
  environment is on the main thread or is not stopping, element 0 of its
  abort-on-uncaught toggle is set (non-zero), and execution is not inside a
  should-not-abort scope. In every other case it is false.
\<close>

theorem ShouldAbortOnUncaughtException_iff:
  "ShouldAbortOnUncaughtException current =
     (\<exists>env. current = Some env
        \<and> (is_main_thread env \<or> \<not> is_stopping env)
        \<and> should_abort_on_uncaught_toggle env 0 \<noteq> 0
        \<and> \<not> inside_should_not_abort_on_uncaught_scope env)"
  by (cases current) (simp_all add: ShouldAbortOnUncaughtException_def)

theorem ShouldAbortOnUncaughtException_iff_witness:
  "ShouldAbortOnUncaughtException (Some running_worker)
   \<and> \<not> ShouldAbortOnUncaughtException (Some (running_worker\<lparr>is_stopping := True\<rparr>))
   \<and> ShouldAbortOnUncaughtException
        (Some (running_worker\<lparr>is_stopping := True, is_main_thread := True\<rparr>))
   \<and> \<not> ShouldAbortOnUncaughtException
        (Some (running_worker\<lparr>should_abort_on_uncaught_toggle := (\<lambda>i. 0)\<rparr>))
   \<and> \<not> ShouldAbortOnUncaughtException
        (Some (running_worker\<lparr>inside_should_not_abort_on_uncaught_scope := True\<rparr>))
   \<and> \<not> ShouldAbortOnUncaughtException None"
  using
    ShouldAbortOnUncaughtException_iff [of "Some running_worker"]
    ShouldAbortOnUncaughtException_iff [of "Some (running_worker\<lparr>is_stopping := True\<rparr>)"]
    ShouldAbortOnUncaughtException_iff
      [of "Some (running_worker\<lparr>is_stopping := True, is_main_thread := True\<rparr>)"]
    ShouldAbortOnUncaughtException_iff
      [of "Some (running_worker\<lparr>should_abort_on_uncaught_toggle := (\<lambda>i. 0)\<rparr>)"]
    ShouldAbortOnUncaughtException_iff
      [of "Some (running_worker\<lparr>inside_should_not_abort_on_uncaught_scope := True\<rparr>)"]
    ShouldAbortOnUncaughtException_iff [of None]
  by (simp add: running_worker_def)

subsection \<open>Thread ids\<close>

lemma allocate_thread_ids_eq:
  "allocate_thread_ids n c = (map (\<lambda>k. ThreadId (c + of_nat k)) [0..<n], c + of_nat n)"
proof (induction n arbitrary: c)
  case 0
  then show ?case by simp
next
  case (Suc n)
  have "map (\<lambda>k. ThreadId (c + of_nat k)) [0..<Suc n]
      = ThreadId c # map (\<lambda>k. ThreadId (c + 1 + of_nat k)) [0..<n]"
    by (simp add: map_upt_Suc add.assoc del: upt_Suc)
  with Suc.IH [of "c + 1"] show ?case
    by (simp add: AllocateEnvironmentThreadId_def add.assoc del: upt_Suc)
qed

text \<open>
  C9. The counter starts at 0; an allocation returns the value of the counter and
  leaves it one higher, and nothing else in the file writes it. So the allocation
  number \<open>i\<close> of a process (counting from 0) returns the id \<open>i\<close>, and of two
  allocations the later one returns the greater id: the ids are distinct and increase
  in the order of allocation. The ids are 64-bit values: this is stated for the
  first \<open>2 ^ 64\<close> allocations of a process, before the counter can wrap around.
\<close>

theorem thread_ids_increase:
  "next_thread_id_initial = 0
   \<and> AllocateEnvironmentThreadId c = (ThreadId c, c + 1)
   \<and> length (fst (allocate_thread_ids n next_thread_id_initial)) = n
   \<and> snd (allocate_thread_ids n next_thread_id_initial) = of_nat n
   \<and> (n \<le> 2 ^ 64 \<and> i < n \<longrightarrow>
        unat (id_of (fst (allocate_thread_ids n next_thread_id_initial) ! i)) = i)
   \<and> (n \<le> 2 ^ 64 \<and> i < j \<and> j < n \<longrightarrow>
        id_of (fst (allocate_thread_ids n next_thread_id_initial) ! i)
          < id_of (fst (allocate_thread_ids n next_thread_id_initial) ! j)
        \<and> fst (allocate_thread_ids n next_thread_id_initial) ! i
          \<noteq> fst (allocate_thread_ids n next_thread_id_initial) ! j)"
proof -
  have u: "unat (id_of (fst (allocate_thread_ids n next_thread_id_initial) ! k)) = k"
    if "n \<le> 2 ^ 64" "k < n" for k
  proof -
    have "k < 2 ^ LENGTH(64)" using that by simp
    then have "unat (of_nat k :: uint64_t) = k"
      by (rule of_nat_inverse [OF refl])
    with that show ?thesis
      by (simp add: allocate_thread_ids_eq next_thread_id_initial_def)
  qed
  have lt: "id_of (fst (allocate_thread_ids n next_thread_id_initial) ! i)
          < id_of (fst (allocate_thread_ids n next_thread_id_initial) ! j)
        \<and> fst (allocate_thread_ids n next_thread_id_initial) ! i
          \<noteq> fst (allocate_thread_ids n next_thread_id_initial) ! j"
    if "n \<le> 2 ^ 64" "i < j" "j < n"
  proof -
    from that have "i < n" by simp
    from u [OF that(1) this] u [OF that(1) that(3)] that(2)
    have "unat (id_of (fst (allocate_thread_ids n next_thread_id_initial) ! i))
        < unat (id_of (fst (allocate_thread_ids n next_thread_id_initial) ! j))"
      by simp
    then have l: "id_of (fst (allocate_thread_ids n next_thread_id_initial) ! i)
          < id_of (fst (allocate_thread_ids n next_thread_id_initial) ! j)"
      by (simp add: word_less_nat_alt)
    then show ?thesis by auto
  qed
  show ?thesis
    using u lt
    by (simp add: allocate_thread_ids_eq next_thread_id_initial_def
        AllocateEnvironmentThreadId_def)
qed

theorem thread_ids_increase_witness:
  "fst (allocate_thread_ids 3 next_thread_id_initial) = [ThreadId 0, ThreadId 1, ThreadId 2]
   \<and> snd (allocate_thread_ids 3 next_thread_id_initial) = 3
   \<and> id_of (fst (allocate_thread_ids 3 next_thread_id_initial) ! 0)
       < id_of (fst (allocate_thread_ids 3 next_thread_id_initial) ! 2)"
proof -
  have h: "(3 :: nat) \<le> 2 ^ 64 \<and> (0 :: nat) < 2 \<and> (2 :: nat) < 3" by simp
  have e: "fst (allocate_thread_ids 3 next_thread_id_initial) = [ThreadId 0, ThreadId 1, ThreadId 2]"
    by (simp add: numeral_3_eq_3 AllocateEnvironmentThreadId_def next_thread_id_initial_def)
  show ?thesis
    using h e thread_ids_increase [of 0 3 0 2]
    by (simp add: next_thread_id_initial_def)
qed

subsection \<open>Evaluating the engine model\<close>

lemmas context_eval = InitializeContext_def InitializeContextForSnapshot_def InitializeContextRuntime_def
  delete_from_global_object_def GetPerContextExports_def Object_GetPrivate_def Object_SetPrivate_def
  Object_Get_def Object_Set_def Object_Delete_def Object_SetPrototype_def Object_New_def
  SetEmbedderData_def lookup_object_def store_object_def new_object_def context_files_def
  per_context_binding_exports_def quiet_modules_def

subsection \<open>Per-context exports\<close>

lemma GetPerContextExports_existing:
  "Object_GetPrivate context (global context) per_context_binding_exports = Some (JSObject e)
   \<Longrightarrow> GetPerContextExports context = (Some e, context)"
  by (simp add: GetPerContextExports_def)

lemma GetPerContextExports_created:
  assumes g: "Object_GetPrivate context (global context) per_context_binding_exports = Some v"
    and n: "\<not> IsObject v"
  shows "\<exists>ob. lookup_object context (global context) = Some ob \<and> \<not> throws ob
     \<and> GetPerContextExports context =
       (Some (length (heap context)),
        context\<lparr>heap := (heap context @ [new_object])
          [global context := ob\<lparr>private_properties :=
             (private_properties ob)(per_context_binding_exports \<mapsto> JSObject (length (heap context)))\<rparr>]\<rparr>)"
proof -
  from g obtain ob where l: "lookup_object context (global context) = Some ob" and t: "\<not> throws ob"
    by (auto simp: Object_GetPrivate_def split: option.splits if_splits)
  from l have lt: "global context < length (heap context)" and ob: "heap context ! global context = ob"
    by (auto simp: lookup_object_def split: if_splits)
  have "GetPerContextExports context =
       (Some (length (heap context)),
        context\<lparr>heap := (heap context @ [new_object])
          [global context := ob\<lparr>private_properties :=
             (private_properties ob)(per_context_binding_exports \<mapsto> JSObject (length (heap context)))\<rparr>]\<rparr>)"
    using g n l t lt ob
    by (simp add: GetPerContextExports_def Object_New_def Object_SetPrivate_def lookup_object_def
        store_object_def nth_append)
  with l t show ?thesis by blast
qed

lemma GetPerContextExports_cases:
  "GetPerContextExports context = (r, context') \<Longrightarrow>
   (r = None \<and> Object_GetPrivate context (global context) per_context_binding_exports = None \<and> context' = context)
   \<or> (\<exists>e. r = Some e \<and> context' = context
        \<and> Object_GetPrivate context (global context) per_context_binding_exports = Some (JSObject e))
   \<or> (\<exists>v. r = Some (length (heap context)) \<and> \<not> IsObject v
        \<and> Object_GetPrivate context (global context) per_context_binding_exports = Some v)"
proof (cases "Object_GetPrivate context (global context) per_context_binding_exports")
  case None
  assume "GetPerContextExports context = (r, context')"
  with None show ?thesis by (simp add: GetPerContextExports_def)
next
  case (Some v)
  assume r: "GetPerContextExports context = (r, context')"
  show ?thesis
  proof (cases "IsObject v")
    case True
    then obtain e where "v = JSObject e" by (cases v) auto
    with Some r show ?thesis using GetPerContextExports_existing [of "context" e] by auto
  next
    case False
    from GetPerContextExports_created [OF Some False] r Some False show ?thesis by auto
  qed
qed

lemma GetPerContextExports_stored:
  assumes r: "GetPerContextExports context = (Some e, context')"
  shows "Object_GetPrivate context' (global context') per_context_binding_exports = Some (JSObject e)"
proof (cases "Object_GetPrivate context (global context) per_context_binding_exports")
  case None
  with r show ?thesis by (simp add: GetPerContextExports_def)
next
  case (Some v)
  show ?thesis
  proof (cases "IsObject v")
    case True
    then obtain e' where "v = JSObject e'" by (cases v) auto
    with Some r show ?thesis using GetPerContextExports_existing [of "context" e'] by auto
  next
    case False
    from GetPerContextExports_created [OF Some False] obtain ob where
      l: "lookup_object context (global context) = Some ob" and t: "\<not> throws ob"
      and c: "GetPerContextExports context =
       (Some (length (heap context)),
        context\<lparr>heap := (heap context @ [new_object])
          [global context := ob\<lparr>private_properties :=
             (private_properties ob)(per_context_binding_exports \<mapsto> JSObject (length (heap context)))\<rparr>]\<rparr>)"
      by blast
    from l have lt: "global context < length (heap context)"
      by (auto simp: lookup_object_def split: if_splits)
    from c r have e: "e = length (heap context)" and c': "context' = context\<lparr>heap := (heap context @ [new_object])
          [global context := ob\<lparr>private_properties :=
             (private_properties ob)(per_context_binding_exports \<mapsto> JSObject (length (heap context)))\<rparr>]\<rparr>"
      by simp_all
    show ?thesis
      using lt t by (simp add: c' e Object_GetPrivate_def lookup_object_def)
  qed
qed

text \<open>
  C10. When the private slot of the global object already holds an object, that
  object is returned and the context is left as it is: nothing is created, nothing
  is stored. After a call that returned an object, a second call on the context the
  first one left returns the same object and changes nothing. The context changes
  only in a call that read a value that is not an object from the slot; that call
  creates one object, which is not an object of the context before the call, stores
  it in the slot and returns it.
\<close>

theorem GetPerContextExports_idempotent:
  "(Object_GetPrivate context (global context) per_context_binding_exports = Some (JSObject e)
      \<longrightarrow> GetPerContextExports context = (Some e, context))
   \<and> (GetPerContextExports context = (Some e, context')
      \<longrightarrow> GetPerContextExports context' = (Some e, context'))
   \<and> (snd (GetPerContextExports context) \<noteq> context
      \<longrightarrow> (\<exists>v. Object_GetPrivate context (global context) per_context_binding_exports = Some v
              \<and> \<not> IsObject v)
          \<and> fst (GetPerContextExports context) = Some (length (heap context))
          \<and> length (heap (snd (GetPerContextExports context))) = Suc (length (heap context))
          \<and> Object_GetPrivate (snd (GetPerContextExports context))
               (global (snd (GetPerContextExports context))) per_context_binding_exports
             = Some (JSObject (length (heap context))))"
proof (intro conjI impI)
  assume "Object_GetPrivate context (global context) per_context_binding_exports = Some (JSObject e)"
  then show "GetPerContextExports context = (Some e, context)"
    by (rule GetPerContextExports_existing)
next
  assume "GetPerContextExports context = (Some e, context')"
  then have "Object_GetPrivate context' (global context') per_context_binding_exports = Some (JSObject e)"
    by (rule GetPerContextExports_stored)
  then show "GetPerContextExports context' = (Some e, context')"
    by (rule GetPerContextExports_existing)
next
  assume ch: "snd (GetPerContextExports context) \<noteq> context"
  obtain r c where rc: "GetPerContextExports context = (r, c)" by (cases "GetPerContextExports context")
  from GetPerContextExports_cases [OF rc] ch rc
  obtain v where v: "Object_GetPrivate context (global context) per_context_binding_exports = Some v"
    and n: "\<not> IsObject v"
    by auto
  from GetPerContextExports_created [OF v n] obtain ob where
      c: "GetPerContextExports context =
       (Some (length (heap context)),
        context\<lparr>heap := (heap context @ [new_object])
          [global context := ob\<lparr>private_properties :=
             (private_properties ob)(per_context_binding_exports \<mapsto> JSObject (length (heap context)))\<rparr>]\<rparr>)"
    by blast
  show "\<exists>v. Object_GetPrivate context (global context) per_context_binding_exports = Some v
              \<and> \<not> IsObject v"
    using v n by blast
  show "fst (GetPerContextExports context) = Some (length (heap context))"
    using c by simp
  show "length (heap (snd (GetPerContextExports context))) = Suc (length (heap context))"
    using c by simp
  show "Object_GetPrivate (snd (GetPerContextExports context))
               (global (snd (GetPerContextExports context))) per_context_binding_exports
             = Some (JSObject (length (heap context)))"
    using GetPerContextExports_stored [of "context" "length (heap context)" "snd (GetPerContextExports context)"] c
    by simp
qed

theorem GetPerContextExports_idempotent_witness:
  "fst (GetPerContextExports empty_context) = Some 1
   \<and> GetPerContextExports (snd (GetPerContextExports empty_context))
       = (Some 1, snd (GetPerContextExports empty_context))
   \<and> length (heap (snd (GetPerContextExports empty_context))) = 2"
proof -
  have e: "GetPerContextExports empty_context = (Some 1, snd (GetPerContextExports empty_context))"
    by (simp add: context_eval empty_context_def)
  have c: "snd (GetPerContextExports empty_context) \<noteq> empty_context"
    by (simp add: context_eval empty_context_def)
  show ?thesis
    using e c
      GetPerContextExports_idempotent [of empty_context 1 "snd (GetPerContextExports empty_context)"]
    by (simp add: empty_context_def)
qed

subsection \<open>Context initialization\<close>

lemma store_object_same:
  "lookup_object context obj = Some ob \<Longrightarrow> store_object obj ob context = context"
  by (auto simp: lookup_object_def store_object_def split: if_splits)

lemma lookup_property_more_steps:
  "lookup_property n context obj key = Some v \<Longrightarrow>
   lookup_property (n + k) context obj key = Some v"
proof (induction n arbitrary: obj)
  case 0
  then show ?case by simp
next
  case (Suc n)
  then show ?case
    by (auto split: option.splits if_splits)
qed

lemma Object_Delete_empty:
  "(Object_Delete context obj key = None) =
     (\<forall>ob. lookup_object context obj = Some ob \<longrightarrow> throws ob)"
  by (auto simp: Object_Delete_def split: option.splits)

lemma delete_from_global_object_no_such_object:
  "no_such_object object_string context \<Longrightarrow>
   delete_from_global_object object_string property_string context = Inr context"
  by (auto simp: no_such_object_def delete_from_global_object_def split: option.splits)

lemma delete_from_global_object_non_configurable:
  assumes "Object_Get context (global context) object_string = Some (JSObject obj)"
    and "lookup_object context obj = Some ob" and "\<not> throws ob"
    and "properties ob property_string \<noteq> None" and "property_string \<in> non_configurable ob"
  shows "delete_from_global_object object_string property_string context = Inr context"
  using assms
  by (auto simp: delete_from_global_object_def Object_Delete_def)

lemma delete_from_global_object_ordinary:
  assumes "Object_Get context (global context) object_string = Some (JSObject obj)"
    and "lookup_object context obj = Some ob" and "\<not> throws ob"
    and "property_string \<notin> non_configurable ob"
  shows "delete_from_global_object object_string property_string context =
           Inr (store_object obj (ob\<lparr>properties := (properties ob)(property_string := None)\<rparr>) context)"
    and "lookup_object
           (store_object obj (ob\<lparr>properties := (properties ob)(property_string := None)\<rparr>) context) obj
         = Some (ob\<lparr>properties := (properties ob)(property_string := None)\<rparr>)"
  using assms
  by (auto simp: delete_from_global_object_def Object_Delete_def lookup_object_def store_object_def
      split: if_splits)

lemma delete_from_global_object_without_property:
  assumes "ordinary_without_property object_string property_string context"
  shows "delete_from_global_object object_string property_string context = Inr context"
proof -
  from assms obtain v ob where g: "Object_Get context (global context) object_string = Some v"
    and i: "IsObject v" and l: "lookup_object context (object_of v) = Some ob"
    and t: "\<not> throws ob" and p: "properties ob property_string = None"
    by (auto simp: ordinary_without_property_def split: option.splits)
  from i obtain obj where v: "v = JSObject obj" by (cases v) auto
  from p have "(properties ob)(property_string := None) = properties ob"
    by (simp add: fun_eq_iff)
  then have "ob\<lparr>properties := (properties ob)(property_string := None)\<rparr> = ob"
    by simp
  with g l t v p show ?thesis
    by (simp add: delete_from_global_object_def Object_Delete_def store_object_same)
qed

lemma delete_from_global_object_fatal:
  "(delete_from_global_object object_string property_string context = Inl e) =
     (e = FromJustOnNothing
      \<and> (\<exists>obj. Object_Get context (global context) object_string = Some (JSObject obj)
            \<and> Object_Delete context obj property_string = None))"
proof (cases "Object_Get context (global context) object_string")
  case None
  then show ?thesis by (simp add: delete_from_global_object_def)
next
  case (Some v)
  then show ?thesis
    by (cases v) (auto simp: delete_from_global_object_def split: option.splits)
qed

lemma InitializeContextRuntime_noop:
  "no_such_object ''Intl'' context \<or> ordinary_without_property ''Intl'' ''v8BreakIterator'' context \<Longrightarrow>
   no_such_object ''Atomics'' context \<or> ordinary_without_property ''Atomics'' ''wake'' context \<Longrightarrow>
   InitializeContextRuntime context = Inr context"
  by (auto simp: InitializeContextRuntime_def delete_from_global_object_no_such_object
      delete_from_global_object_without_property)

lemma InitializeContextRuntime_fatal:
  "InitializeContextRuntime context = Inl e \<Longrightarrow> e = FromJustOnNothing"
  by (auto simp: InitializeContextRuntime_def delete_from_global_object_fatal split: sum.splits)

lemma InitializeContext_failure:
  "(InitializeContext L ctx = Inr (False, c)) = (InitializeContextForSnapshot L ctx = Inr (False, c))"
  by (auto simp: InitializeContext_def split: sum.splits prod.splits bool.splits)

lemma InitializeContext_after_snapshot:
  "InitializeContextForSnapshot L ctx = Inr (True, c1) \<Longrightarrow>
   InitializeContext L ctx =
     (case InitializeContextRuntime c1 of Inl e \<Rightarrow> Inl e | Inr c2 \<Rightarrow> Inr (True, c2))"
  by (simp add: InitializeContext_def)

text \<open>
  C8, as the specification states it, fails: the snapshot-safe stage succeeds on a
  context whose \<open>Intl\<close> is an object whose delete handler throws, and the runtime
  stage then aborts the process in \<^verbatim>\<open>FromJust()\<close>; \<^verbatim>\<open>InitializeContext\<close> returns
  neither success nor failure. That object has no property \<open>v8BreakIterator\<close>: the
  absence of the property does not make the deletion a silent no-op either.
\<close>

theorem throwing_delete_aborts_initialization:
  "map_sum id fst (InitializeContextForSnapshot quiet_modules throwing_intl_context) = Inr True
   \<and> InitializeContext quiet_modules throwing_intl_context = Inl FromJustOnNothing
   \<and> lookup_object throwing_intl_context 1 = Some (new_object\<lparr>throws := True\<rparr>)
   \<and> properties (new_object\<lparr>throws := True\<rparr>) ''v8BreakIterator'' = None"
  by (simp add: context_eval throwing_intl_context_def)

text \<open>
  C8, amended. \<^verbatim>\<open>InitializeContext\<close> returns failure exactly when the snapshot-safe
  stage returns failure, with the context that stage left. When the snapshot-safe
  stage succeeds the runtime stage is run on the context it left, and
  \<^verbatim>\<open>InitializeContext\<close> returns success with the context the runtime stage leaves,
  unless the runtime stage aborts in \<^verbatim>\<open>FromJust()\<close>; it never returns failure then.
  A deletion of the runtime stage aborts exactly when the lookup on the global (along
  the prototype chain) finds the object and the object's \<^verbatim>\<open>Delete\<close> returns an empty
  \<^verbatim>\<open>Maybe\<close>, which is when the object throws. A deletion changes nothing when the
  global has no such object (the lookup throws or gives a value that is not an
  object), when the object found is an ordinary object (it does not throw) without
  the property, and when that object has the property but not configurable; on an
  ordinary object with the property configurable, the property is removed. When
  each of the two deletions finds no such object or an ordinary object without the
  property, the runtime stage changes nothing and \<^verbatim>\<open>InitializeContext\<close> returns
  success.
\<close>

theorem InitializeContext_stages:
  "(InitializeContext L ctx = Inr (False, c)) = (InitializeContextForSnapshot L ctx = Inr (False, c))
   \<and> (InitializeContextForSnapshot L ctx = Inr (True, c1) \<and> InitializeContextRuntime c1 = Inr c2
        \<longrightarrow> InitializeContext L ctx = Inr (True, c2))
   \<and> (InitializeContextForSnapshot L ctx = Inr (True, c1) \<and> InitializeContextRuntime c1 = Inl e
        \<longrightarrow> InitializeContext L ctx = Inl e)
   \<and> (InitializeContextForSnapshot L ctx = Inr (True, c1)
        \<longrightarrow> InitializeContext L ctx = Inl FromJustOnNothing
            \<or> (\<exists>c2. InitializeContext L ctx = Inr (True, c2)))
   \<and> (InitializeContextRuntime c1 =
        (case delete_from_global_object ''Intl'' ''v8BreakIterator'' c1 of
           Inl e \<Rightarrow> Inl e
         | Inr c' \<Rightarrow> delete_from_global_object ''Atomics'' ''wake'' c'))
   \<and> (delete_from_global_object object_string property_string c1 = Inl e) =
        (e = FromJustOnNothing
         \<and> (\<exists>obj. Object_Get c1 (global c1) object_string = Some (JSObject obj)
               \<and> Object_Delete c1 obj property_string = None))
   \<and> (Object_Delete c1 obj property_string = None) =
        (\<forall>ob. lookup_object c1 obj = Some ob \<longrightarrow> throws ob)
   \<and> (no_such_object object_string c1
        \<longrightarrow> delete_from_global_object object_string property_string c1 = Inr c1)
   \<and> (ordinary_without_property object_string property_string c1
        \<longrightarrow> delete_from_global_object object_string property_string c1 = Inr c1)
   \<and> (Object_Get c1 (global c1) object_string = Some (JSObject obj)
        \<and> lookup_object c1 obj = Some ob \<and> \<not> throws ob
        \<and> properties ob property_string \<noteq> None \<and> property_string \<in> non_configurable ob
        \<longrightarrow> delete_from_global_object object_string property_string c1 = Inr c1)
   \<and> (Object_Get c1 (global c1) object_string = Some (JSObject obj)
        \<and> lookup_object c1 obj = Some ob \<and> \<not> throws ob
        \<and> property_string \<notin> non_configurable ob
        \<longrightarrow> delete_from_global_object object_string property_string c1 =
              Inr (store_object obj
                     (ob\<lparr>properties := (properties ob)(property_string := None)\<rparr>) c1)
            \<and> lookup_object
                (store_object obj
                   (ob\<lparr>properties := (properties ob)(property_string := None)\<rparr>) c1) obj
              = Some (ob\<lparr>properties := (properties ob)(property_string := None)\<rparr>))
   \<and> ((no_such_object ''Intl'' c1 \<or> ordinary_without_property ''Intl'' ''v8BreakIterator'' c1)
        \<and> (no_such_object ''Atomics'' c1 \<or> ordinary_without_property ''Atomics'' ''wake'' c1)
        \<longrightarrow> InitializeContextRuntime c1 = Inr c1)
   \<and> (InitializeContextForSnapshot L ctx = Inr (True, c1)
        \<and> (no_such_object ''Intl'' c1 \<or> ordinary_without_property ''Intl'' ''v8BreakIterator'' c1)
        \<and> (no_such_object ''Atomics'' c1 \<or> ordinary_without_property ''Atomics'' ''wake'' c1)
        \<longrightarrow> InitializeContext L ctx = Inr (True, c1))"
proof -
  have c1: "(InitializeContext L ctx = Inr (False, c)) = (InitializeContextForSnapshot L ctx = Inr (False, c))"
    by (rule InitializeContext_failure)
  have c2: "InitializeContextForSnapshot L ctx = Inr (True, c1) \<and> InitializeContextRuntime c1 = Inr c2
        \<longrightarrow> InitializeContext L ctx = Inr (True, c2)"
    by (auto simp: InitializeContext_after_snapshot)
  have c3: "InitializeContextForSnapshot L ctx = Inr (True, c1) \<and> InitializeContextRuntime c1 = Inl e
        \<longrightarrow> InitializeContext L ctx = Inl e"
    by (auto simp: InitializeContext_after_snapshot)
  have c4: "InitializeContextForSnapshot L ctx = Inr (True, c1)
        \<longrightarrow> InitializeContext L ctx = Inl FromJustOnNothing
            \<or> (\<exists>c2. InitializeContext L ctx = Inr (True, c2))"
  proof
    assume a: "InitializeContextForSnapshot L ctx = Inr (True, c1)"
    show "InitializeContext L ctx = Inl FromJustOnNothing
            \<or> (\<exists>c2. InitializeContext L ctx = Inr (True, c2))"
    proof (cases "InitializeContextRuntime c1")
      case (Inl x)
      with InitializeContextRuntime_fatal [of c1 x] InitializeContext_after_snapshot [OF a]
      show ?thesis by simp
    next
      case (Inr x)
      with InitializeContext_after_snapshot [OF a] show ?thesis by simp
    qed
  qed
  have c5: "InitializeContextRuntime c1 =
        (case delete_from_global_object ''Intl'' ''v8BreakIterator'' c1 of
           Inl e \<Rightarrow> Inl e
         | Inr c' \<Rightarrow> delete_from_global_object ''Atomics'' ''wake'' c')"
    by (simp add: InitializeContextRuntime_def)
  have c6: "(delete_from_global_object object_string property_string c1 = Inl e) =
        (e = FromJustOnNothing
         \<and> (\<exists>obj. Object_Get c1 (global c1) object_string = Some (JSObject obj)
               \<and> Object_Delete c1 obj property_string = None))"
    by (rule delete_from_global_object_fatal)
  have c7: "(Object_Delete c1 obj property_string = None) =
        (\<forall>ob. lookup_object c1 obj = Some ob \<longrightarrow> throws ob)"
    by (rule Object_Delete_empty)
  have c8: "no_such_object object_string c1
        \<longrightarrow> delete_from_global_object object_string property_string c1 = Inr c1"
    by (simp add: delete_from_global_object_no_such_object)
  have c9: "ordinary_without_property object_string property_string c1
        \<longrightarrow> delete_from_global_object object_string property_string c1 = Inr c1"
    by (simp add: delete_from_global_object_without_property)
  have c10a: "Object_Get c1 (global c1) object_string = Some (JSObject obj)
        \<and> lookup_object c1 obj = Some ob \<and> \<not> throws ob
        \<and> properties ob property_string \<noteq> None \<and> property_string \<in> non_configurable ob
        \<longrightarrow> delete_from_global_object object_string property_string c1 = Inr c1"
    using delete_from_global_object_non_configurable [of c1 object_string obj ob property_string]
    by simp
  have c10: "Object_Get c1 (global c1) object_string = Some (JSObject obj)
        \<and> lookup_object c1 obj = Some ob \<and> \<not> throws ob
        \<and> property_string \<notin> non_configurable ob
        \<longrightarrow> delete_from_global_object object_string property_string c1 =
              Inr (store_object obj
                     (ob\<lparr>properties := (properties ob)(property_string := None)\<rparr>) c1)
            \<and> lookup_object
                (store_object obj
                   (ob\<lparr>properties := (properties ob)(property_string := None)\<rparr>) c1) obj
              = Some (ob\<lparr>properties := (properties ob)(property_string := None)\<rparr>)"
    using delete_from_global_object_ordinary [of c1 object_string obj ob property_string]
    by simp
  have c11: "(no_such_object ''Intl'' c1 \<or> ordinary_without_property ''Intl'' ''v8BreakIterator'' c1)
        \<and> (no_such_object ''Atomics'' c1 \<or> ordinary_without_property ''Atomics'' ''wake'' c1)
        \<longrightarrow> InitializeContextRuntime c1 = Inr c1"
    using InitializeContextRuntime_noop [of c1] by simp
  have c12: "InitializeContextForSnapshot L ctx = Inr (True, c1)
        \<and> (no_such_object ''Intl'' c1 \<or> ordinary_without_property ''Intl'' ''v8BreakIterator'' c1)
        \<and> (no_such_object ''Atomics'' c1 \<or> ordinary_without_property ''Atomics'' ''wake'' c1)
        \<longrightarrow> InitializeContext L ctx = Inr (True, c1)"
  proof
    assume a: "InitializeContextForSnapshot L ctx = Inr (True, c1)
        \<and> (no_such_object ''Intl'' c1 \<or> ordinary_without_property ''Intl'' ''v8BreakIterator'' c1)
        \<and> (no_such_object ''Atomics'' c1 \<or> ordinary_without_property ''Atomics'' ''wake'' c1)"
    then have "InitializeContextRuntime c1 = Inr c1"
      using InitializeContextRuntime_noop [of c1] by simp
    with a show "InitializeContext L ctx = Inr (True, c1)"
      by (simp add: InitializeContext_after_snapshot)
  qed
  show ?thesis
    by (intro conjI) (fact c1, fact c2, fact c3, fact c4, fact c5, fact c6, fact c7, fact c8,
        fact c9, fact c10a, fact c10, fact c11, fact c12)
qed

theorem InitializeContext_stages_witness:
  "map_sum id fst (InitializeContext quiet_modules empty_context) = Inr True
   \<and> InitializeContext quiet_modules empty_context
       = InitializeContextForSnapshot quiet_modules empty_context
   \<and> Object_Get inherited_intl_context (global inherited_intl_context) ''Intl'' = Some (JSObject 2)
   \<and> Object_Get inherited_intl_context 2 ''v8BreakIterator'' = Some (JSString ''function'')
   \<and> map_sum id (\<lambda>c. (Object_Get c (global c) ''Intl'', Object_Get c 2 ''v8BreakIterator''))
        (delete_from_global_object ''Intl'' ''v8BreakIterator'' inherited_intl_context)
       = Inr (Some (JSObject 2), Some JSUndefined)"
proof -
  obtain c1 where s: "InitializeContextForSnapshot quiet_modules empty_context = Inr (True, c1)"
    and i: "no_such_object ''Intl'' c1"
    and a: "no_such_object ''Atomics'' c1"
    by (simp add: context_eval no_such_object_def empty_context_def)
  have g: "Object_Get inherited_intl_context (global inherited_intl_context) ''Intl'' = Some (JSObject 2)"
    and l: "lookup_object inherited_intl_context 2
        = Some (new_object\<lparr>properties := [''v8BreakIterator'' \<mapsto> JSString ''function'']\<rparr>)"
    and t: "\<not> throws (new_object\<lparr>properties := [''v8BreakIterator'' \<mapsto> JSString ''function'']\<rparr>)"
      "''v8BreakIterator'' \<notin> non_configurable
         (new_object\<lparr>properties := [''v8BreakIterator'' \<mapsto> JSString ''function'']\<rparr>)"
    and b: "Object_Get inherited_intl_context 2 ''v8BreakIterator'' = Some (JSString ''function'')"
    by (simp_all add: context_eval inherited_intl_context_def)
  have first: "map_sum id fst (InitializeContext quiet_modules empty_context) = Inr True
      \<and> InitializeContext quiet_modules empty_context
          = InitializeContextForSnapshot quiet_modules empty_context"
    using s i a
      InitializeContext_stages [of quiet_modules empty_context c1 c1 c1 FromJustOnNothing
        "''Intl''" "''v8BreakIterator''"]
    by simp
  have second: "delete_from_global_object ''Intl'' ''v8BreakIterator'' inherited_intl_context =
      Inr (store_object 2
             ((new_object\<lparr>properties := [''v8BreakIterator'' \<mapsto> JSString ''function'']\<rparr>)
                \<lparr>properties := [''v8BreakIterator'' \<mapsto> JSString ''function'']
                   (''v8BreakIterator'' := None)\<rparr>) inherited_intl_context)"
    using g l t
      InitializeContext_stages [where ?c1.0 = inherited_intl_context and obj = 2
        and ob = "new_object\<lparr>properties := [''v8BreakIterator'' \<mapsto> JSString ''function'']\<rparr>"
        and object_string = "''Intl''" and property_string = "''v8BreakIterator''"]
    by simp
  have third: "map_sum id (\<lambda>c. (Object_Get c (global c) ''Intl'', Object_Get c 2 ''v8BreakIterator''))
        (delete_from_global_object ''Intl'' ''v8BreakIterator'' inherited_intl_context)
       = Inr (Some (JSObject 2), Some JSUndefined)"
    unfolding second
    by (simp add: context_eval inherited_intl_context_def)
  show ?thesis
    by (intro conjI)
      (rule first [THEN conjunct1], rule first [THEN conjunct2], rule g, rule b, rule third)
qed

subsection \<open>Teardown of an environment\<close>

text \<open>A phase of the teardown adds entries to the trace.\<close>

lemma run_cleanup_hooks_trace:
  "\<exists>ys. trace (run_cleanup_hooks hs r) = trace r @ ys
     \<and> map fst ys = map CleanupHookRun hs
     \<and> (\<forall>(s, ob) \<in> set ys.
           seen_stopped ob = thread_stopper_stopped (environment r)
         \<and> seen_sub_workers ob = sub_worker_contexts (environment r)
         \<and> seen_context_scopes ob = context_scopes r
         \<and> seen_alive ob = alive r)"
proof (induction hs arbitrary: r)
  case Nil
  then show ?case by simp
next
  case (Cons h hs)
  let ?r1 = "(record_step (CleanupHookRun h) r)\<lparr>environment := (environment r)\<lparr>cleanup_hooks := hs\<rparr>\<rparr>"
  from Cons.IH [of ?r1] obtain ys where
    t: "trace (run_cleanup_hooks hs ?r1) = trace ?r1 @ ys"
    and m: "map fst ys = map CleanupHookRun hs"
    and o: "\<forall>(s, ob) \<in> set ys.
           seen_stopped ob = thread_stopper_stopped (environment ?r1)
         \<and> seen_sub_workers ob = sub_worker_contexts (environment ?r1)
         \<and> seen_context_scopes ob = context_scopes ?r1
         \<and> seen_alive ob = alive ?r1"
    by blast
  let ?ys = "(CleanupHookRun h, observe r) # ys"
  have "trace (run_cleanup_hooks (h # hs) r) = trace r @ ?ys"
    using t by (simp add: record_step_def)
  moreover have "map fst ?ys = map CleanupHookRun (h # hs)"
    using m by simp
  moreover have "\<forall>(s, ob) \<in> set ?ys.
           seen_stopped ob = thread_stopper_stopped (environment r)
         \<and> seen_sub_workers ob = sub_worker_contexts (environment r)
         \<and> seen_context_scopes ob = context_scopes r
         \<and> seen_alive ob = alive r"
    using o by (auto simp: observe_def record_step_def)
  ultimately show ?case by blast
qed

lemma run_cleanup_hooks_state:
  "alive (run_cleanup_hooks hs r) = alive r
   \<and> context_scopes (run_cleanup_hooks hs r) = context_scopes r
   \<and> environment (run_cleanup_hooks hs r) =
       (environment r)\<lparr>cleanup_hooks := (if hs = [] then cleanup_hooks (environment r) else [])\<rparr>"
  by (induction hs arbitrary: r) (simp_all add: record_step_def)

lemma run_at_exit_callbacks_trace:
  "trace (run_at_exit_callbacks fs r) = trace r @ map (\<lambda>f. (AtExitCallbackRun f, observe r)) fs
   \<and> alive (run_at_exit_callbacks fs r) = alive r
   \<and> context_scopes (run_at_exit_callbacks fs r) = context_scopes r
   \<and> environment (run_at_exit_callbacks fs r) = environment r"
proof (induction fs arbitrary: r)
  case Nil
  then show ?case by simp
next
  case (Cons f fs)
  have "observe (record_step (AtExitCallbackRun f) r) = observe r"
    by (simp add: observe_def record_step_def)
  with Cons.IH [of "record_step (AtExitCallbackRun f) r"] show ?case
    by (simp add: record_step_def)
qed


lemma FreeEnvironment_trace:
  "\<exists>ys. trace (FreeEnvironment r) = trace r @ ys
     \<and> map fst ys = teardown_order (environment r)
     \<and> (\<forall>(s, ob) \<in> set ys. observes r s ob)"
proof -
  define r1 where "r1 = enter_context_scope r"
  define r2 where "r2 = set_stopped True r1"
  define r3 where "r3 = stop_sub_worker_contexts r2"
  define r4 where "r4 = RunCleanup r3"
  define r5 where "r5 = RunAtExit r4"
  define r6 where "r6 = exit_context_scope r5"
  define r7 where "r7 = (case platform (isolate_data (environment r6)) of
                           None \<Rightarrow> r6 | Some p \<Rightarrow> DrainTasks r6)"
  have F: "FreeEnvironment r = delete_Environment r7"
    unfolding FreeEnvironment_def Let_def r1_def r2_def r3_def r4_def r5_def r6_def r7_def ..
  have s3: "environment r3 = (environment r)\<lparr>thread_stopper_stopped := True, sub_worker_contexts := []\<rparr>"
    "alive r3 = alive r" "context_scopes r3 = Suc (context_scopes r)"
    "trace r3 = trace r @ [(ScopeEntered, observe r), (StoppedSet, observe r1),
       (SubWorkersStopped, observe r2)]"
    by (simp_all add: r1_def r2_def r3_def enter_context_scope_def set_stopped_def
        stop_sub_worker_contexts_def record_step_def)
  from run_cleanup_hooks_trace [of "cleanup_hooks (environment r3)" r3] obtain ys4 where
    t4: "trace r4 = trace r3 @ ys4"
    and m4: "map fst ys4 = map CleanupHookRun (cleanup_hooks (environment r))"
    and o4: "\<forall>(s, ob) \<in> set ys4. seen_stopped ob \<and> seen_sub_workers ob = []
         \<and> seen_context_scopes ob = Suc (context_scopes r) \<and> seen_alive ob = alive r"
    unfolding r4_def RunCleanup_def using s3 by auto
  have s4: "environment r4 = (environment r)\<lparr>thread_stopper_stopped := True,
       sub_worker_contexts := [], cleanup_hooks := []\<rparr>"
    "alive r4 = alive r" "context_scopes r4 = Suc (context_scopes r)"
    using run_cleanup_hooks_state [of "cleanup_hooks (environment r3)" r3] s3
    by (auto simp: r4_def RunCleanup_def)
  have ob4: "seen_stopped (observe r4)" "seen_sub_workers (observe r4) = []"
    "seen_cleanup_hooks (observe r4) = []"
    "seen_context_scopes (observe r4) = Suc (context_scopes r)" "seen_alive (observe r4) = alive r"
    using s4 by (simp_all add: observe_def)
  have s5: "environment r5 = (environment r)\<lparr>thread_stopper_stopped := True,
       sub_worker_contexts := [], cleanup_hooks := [], at_exit_functions := []\<rparr>"
    "alive r5 = alive r" "context_scopes r5 = Suc (context_scopes r)"
    "trace r5 = trace r4 @ map (\<lambda>f. (AtExitCallbackRun f, observe r4)) (at_exit_functions (environment r))"
    using run_at_exit_callbacks_trace [of "at_exit_functions (environment r4)" r4] s4
    by (simp_all add: r5_def RunAtExit_def)
  have ob5: "seen_stopped (observe r5)" "seen_sub_workers (observe r5) = []"
    "seen_cleanup_hooks (observe r5) = []"
    "seen_context_scopes (observe r5) = Suc (context_scopes r)" "seen_alive (observe r5) = alive r"
    using s5 by (simp_all add: observe_def)
  have s6: "environment r6 = environment r5" "alive r6 = alive r" "context_scopes r6 = context_scopes r"
    "trace r6 = trace r5 @ [(ScopeExited, observe r5)]"
    using s5 by (simp_all add: r6_def exit_context_scope_def record_step_def)
  have ob6: "seen_stopped (observe r6)" "seen_sub_workers (observe r6) = []"
    "seen_cleanup_hooks (observe r6) = []"
    "seen_context_scopes (observe r6) = context_scopes r" "seen_alive (observe r6) = alive r"
    using s5 s6 by (simp_all add: observe_def)
  have p6: "platform (isolate_data (environment r6)) = platform (isolate_data (environment r))"
    using s5 s6 by simp
  have s7: "alive r7 = alive r" "context_scopes r7 = context_scopes r"
    "trace r7 = trace r6 @ (if platform (isolate_data (environment r)) = None then []
                              else [(TasksDrained, observe r6)])"
    using s6 p6 by (auto simp: r7_def DrainTasks_def record_step_def split: option.splits)
  have ob7: "seen_context_scopes (observe r7) = context_scopes r" "seen_alive (observe r7) = alive r"
    using s7 by (simp_all add: observe_def)
  let ?ys = "[(ScopeEntered, observe r), (StoppedSet, observe r1), (SubWorkersStopped, observe r2)]
     @ ys4
     @ map (\<lambda>f. (AtExitCallbackRun f, observe r4)) (at_exit_functions (environment r))
     @ [(ScopeExited, observe r5)]
     @ (if platform (isolate_data (environment r)) = None then [] else [(TasksDrained, observe r6)])
     @ [(EnvironmentDeleted, observe r7)]"
  have T: "trace (FreeEnvironment r) = trace r @ ?ys"
    using s3 t4 s5 s6 s7 by (simp add: F delete_Environment_def record_step_def)
  have M: "map fst ?ys = teardown_order (environment r)"
    using m4 by (simp add: teardown_order_def comp_def)
  have O: "\<forall>(s, ob) \<in> set ?ys. observes r s ob"
  proof (clarify)
    fix s ob assume "(s, ob) \<in> set ?ys"
    then consider "s = ScopeEntered" | "s = StoppedSet" | "s = SubWorkersStopped"
      | "(s, ob) \<in> set ys4"
      | f where "s = AtExitCallbackRun f" "ob = observe r4"
      | "s = ScopeExited" "ob = observe r5"
      | "s = TasksDrained" "ob = observe r6"
      | "s = EnvironmentDeleted" "ob = observe r7"
      by (auto split: if_splits)
    then show "observes r s ob"
    proof cases
      case 4
      with m4 obtain h where "s = CleanupHookRun h"
        by (metis (no_types, lifting) fst_conv image_eqI image_set list.set_map imageE)
      with 4 o4 show ?thesis by auto
    qed (simp_all add: ob4 ob5 ob6 ob7)
  qed
  from T M O show ?thesis by blast
qed

lemma FreeEnvironment_state:
  "\<not> alive (FreeEnvironment r)
   \<and> context_scopes (FreeEnvironment r) = context_scopes r
   \<and> environment (FreeEnvironment r) =
       (environment r)\<lparr>thread_stopper_stopped := True, sub_worker_contexts := [],
          cleanup_hooks := [], at_exit_functions := []\<rparr>"
proof -
  define r3 where "r3 = stop_sub_worker_contexts (set_stopped True (enter_context_scope r))"
  have s3: "environment r3 = (environment r)\<lparr>thread_stopper_stopped := True, sub_worker_contexts := []\<rparr>"
    "context_scopes r3 = Suc (context_scopes r)"
    by (simp_all add: r3_def enter_context_scope_def set_stopped_def
        stop_sub_worker_contexts_def record_step_def)
  have s4: "environment (RunCleanup r3) = (environment r)\<lparr>thread_stopper_stopped := True,
       sub_worker_contexts := [], cleanup_hooks := []\<rparr>"
    "context_scopes (RunCleanup r3) = Suc (context_scopes r)"
    using run_cleanup_hooks_state [of "cleanup_hooks (environment r3)" r3] s3
    by (auto simp: RunCleanup_def)
  have s5: "environment (RunAtExit (RunCleanup r3)) = (environment r)\<lparr>thread_stopper_stopped := True,
       sub_worker_contexts := [], cleanup_hooks := [], at_exit_functions := []\<rparr>"
    "context_scopes (RunAtExit (RunCleanup r3)) = Suc (context_scopes r)"
    using run_at_exit_callbacks_trace [of "at_exit_functions (environment (RunCleanup r3))" "RunCleanup r3"] s4
    by (simp_all add: RunAtExit_def)
  show ?thesis
    using s5
    by (simp add: FreeEnvironment_def Let_def r3_def [symmetric] delete_Environment_def
        exit_context_scope_def DrainTasks_def record_step_def split: option.splits)
qed

text \<open>
  C1. \<^verbatim>\<open>FreeEnvironment\<close> adds to the trace exactly the steps of the teardown order,
  in that order: the context scope is entered, the stop flag is set, the sub-worker
  contexts are stopped, the cleanup hooks are run, the at-exit callbacks are run, the
  context scope is exited, the platform's tasks are drained (this step is there when
  the isolate data has a platform), the environment is deleted. Every cleanup hook
  observes the stop flag set and no sub-worker context running, inside the scope;
  every at-exit callback observes, besides, that no cleanup hook is left; the tasks
  are drained after the scope has been exited, on the environment not yet deleted;
  the deletion is the last step.
\<close>

theorem FreeEnvironment_teardown_order:
  "map fst (trace (FreeEnvironment r)) = map fst (trace r) @ teardown_order (environment r)
   \<and> take (length (trace r)) (trace (FreeEnvironment r)) = trace r
   \<and> (\<forall>(s, ob) \<in> set (drop (length (trace r)) (trace (FreeEnvironment r))). observes r s ob)
   \<and> \<not> alive (FreeEnvironment r)
   \<and> context_scopes (FreeEnvironment r) = context_scopes r"
proof -
  from FreeEnvironment_trace [of r] obtain ys where
    t: "trace (FreeEnvironment r) = trace r @ ys"
    and m: "map fst ys = teardown_order (environment r)"
    and o: "\<forall>(s, ob) \<in> set ys. observes r s ob"
    by blast
  from t m o FreeEnvironment_state [of r] show ?thesis by simp
qed

theorem FreeEnvironment_teardown_order_witness:
  "trace (FreeEnvironment (constructed running_worker)) =
     [(ScopeEntered, \<lparr>seen_stopped = False, seen_sub_workers = [7], seen_cleanup_hooks = [1, 2],
          seen_context_scopes = 1, seen_alive = True\<rparr>),
      (StoppedSet, \<lparr>seen_stopped = False, seen_sub_workers = [7], seen_cleanup_hooks = [1, 2],
          seen_context_scopes = 2, seen_alive = True\<rparr>),
      (SubWorkersStopped, \<lparr>seen_stopped = True, seen_sub_workers = [7], seen_cleanup_hooks = [1, 2],
          seen_context_scopes = 2, seen_alive = True\<rparr>),
      (CleanupHookRun 1, \<lparr>seen_stopped = True, seen_sub_workers = [], seen_cleanup_hooks = [1, 2],
          seen_context_scopes = 2, seen_alive = True\<rparr>),
      (CleanupHookRun 2, \<lparr>seen_stopped = True, seen_sub_workers = [], seen_cleanup_hooks = [2],
          seen_context_scopes = 2, seen_alive = True\<rparr>),
      (AtExitCallbackRun 3, \<lparr>seen_stopped = True, seen_sub_workers = [], seen_cleanup_hooks = [],
          seen_context_scopes = 2, seen_alive = True\<rparr>),
      (ScopeExited, \<lparr>seen_stopped = True, seen_sub_workers = [], seen_cleanup_hooks = [],
          seen_context_scopes = 2, seen_alive = True\<rparr>),
      (TasksDrained, \<lparr>seen_stopped = True, seen_sub_workers = [], seen_cleanup_hooks = [],
          seen_context_scopes = 1, seen_alive = True\<rparr>),
      (EnvironmentDeleted, \<lparr>seen_stopped = True, seen_sub_workers = [], seen_cleanup_hooks = [],
          seen_context_scopes = 1, seen_alive = True\<rparr>)]
   \<and> map fst (trace (FreeEnvironment (constructed running_worker))) =
       teardown_order running_worker
   \<and> \<not> alive (FreeEnvironment (constructed running_worker))"
proof -
  have e: "trace (FreeEnvironment (constructed running_worker)) =
     [(ScopeEntered, \<lparr>seen_stopped = False, seen_sub_workers = [7], seen_cleanup_hooks = [1, 2],
          seen_context_scopes = 1, seen_alive = True\<rparr>),
      (StoppedSet, \<lparr>seen_stopped = False, seen_sub_workers = [7], seen_cleanup_hooks = [1, 2],
          seen_context_scopes = 2, seen_alive = True\<rparr>),
      (SubWorkersStopped, \<lparr>seen_stopped = True, seen_sub_workers = [7], seen_cleanup_hooks = [1, 2],
          seen_context_scopes = 2, seen_alive = True\<rparr>),
      (CleanupHookRun 1, \<lparr>seen_stopped = True, seen_sub_workers = [], seen_cleanup_hooks = [1, 2],
          seen_context_scopes = 2, seen_alive = True\<rparr>),
      (CleanupHookRun 2, \<lparr>seen_stopped = True, seen_sub_workers = [], seen_cleanup_hooks = [2],
          seen_context_scopes = 2, seen_alive = True\<rparr>),
      (AtExitCallbackRun 3, \<lparr>seen_stopped = True, seen_sub_workers = [], seen_cleanup_hooks = [],
          seen_context_scopes = 2, seen_alive = True\<rparr>),
      (ScopeExited, \<lparr>seen_stopped = True, seen_sub_workers = [], seen_cleanup_hooks = [],
          seen_context_scopes = 2, seen_alive = True\<rparr>),
      (TasksDrained, \<lparr>seen_stopped = True, seen_sub_workers = [], seen_cleanup_hooks = [],
          seen_context_scopes = 1, seen_alive = True\<rparr>),
      (EnvironmentDeleted, \<lparr>seen_stopped = True, seen_sub_workers = [], seen_cleanup_hooks = [],
          seen_context_scopes = 1, seen_alive = True\<rparr>)]"
    by code_simp
  show ?thesis
    using e FreeEnvironment_teardown_order [of "constructed running_worker"]
    by (simp add: constructed_def)
qed

subsection \<open>Creation of an environment\<close>

text \<open>
  C2. When \<^verbatim>\<open>RunBootstrapping\<close> fails, and when the prepare-for-execution flag is set
  and the bootstrap unit \<open>internal/bootstrap/environment\<close> is executed and fails,
  \<^verbatim>\<open>CreateEnvironment\<close> returns \<^verbatim>\<open>nullptr\<close> after \<^verbatim>\<open>FreeEnvironment\<close> has run on the
  environment as the failed bootstrap left it: the whole teardown order is in the
  trace and the environment has been deleted. \<^verbatim>\<open>nullptr\<close> is returned in these two
  cases and in no other. When every bootstrap that is run succeeds, the environment
  is returned as the last one left it, without a teardown. (Between the two
  bootstraps, \<^verbatim>\<open>ToLocalChecked()\<close> aborts the process if the function handed to the
  bootstrap unit cannot be made; the unit is not executed then.)
\<close>

theorem CreateEnvironment_failure_tears_down:
  "let env1 = (if kOwnsProcessState \<in> flags
               then set_abort_on_uncaught_exception False
                      (constructed (new_Environment isolate_data' ctx args exec_args flags thread_id))
               else constructed (new_Environment isolate_data' ctx args exec_args flags thread_id));
       result = CreateEnvironment new_Environment RunBootstrapping GetFunction ExecuteBootstrapper
                  isolate_data' ctx args exec_args flags thread_id
   in (\<forall>env2. RunBootstrapping env1 = (False, env2) \<longrightarrow>
         result = Inr (None, return_from_scope (FreeEnvironment env2))
         \<and> \<not> alive (return_from_scope (FreeEnvironment env2))
         \<and> map fst (trace (return_from_scope (FreeEnvironment env2)))
             = map fst (trace env2) @ teardown_order (environment env2))
    \<and> (\<forall>env2 env3. RunBootstrapping env1 = (True, env2) \<and> kPrepareForExecution \<in> flags
          \<and> GetFunction env2
          \<and> ExecuteBootstrapper ''internal/bootstrap/environment'' env2 = (False, env3) \<longrightarrow>
         result = Inr (None, return_from_scope (FreeEnvironment env3))
         \<and> \<not> alive (return_from_scope (FreeEnvironment env3))
         \<and> map fst (trace (return_from_scope (FreeEnvironment env3)))
             = map fst (trace env3) @ teardown_order (environment env3))
    \<and> (\<exists>final. result = Inr (None, final)) =
        (\<not> fst (RunBootstrapping env1)
         \<or> (kPrepareForExecution \<in> flags
             \<and> GetFunction (snd (RunBootstrapping env1))
             \<and> \<not> fst (ExecuteBootstrapper ''internal/bootstrap/environment''
                         (snd (RunBootstrapping env1)))))
    \<and> (\<forall>env2. RunBootstrapping env1 = (True, env2) \<and> kPrepareForExecution \<notin> flags \<longrightarrow>
         result = Inr (Some (environment env2), return_from_scope env2))
    \<and> (\<forall>env2 env3. RunBootstrapping env1 = (True, env2) \<and> kPrepareForExecution \<in> flags
          \<and> GetFunction env2
          \<and> ExecuteBootstrapper ''internal/bootstrap/environment'' env2 = (True, env3) \<longrightarrow>
         result = Inr (Some (environment env3), return_from_scope env3))
    \<and> (\<forall>env2. RunBootstrapping env1 = (True, env2) \<and> kPrepareForExecution \<in> flags
          \<and> \<not> GetFunction env2 \<longrightarrow>
         result = Inl ToLocalCheckedOnEmpty)"
proof -
  have td: "\<not> alive (return_from_scope (FreeEnvironment e))
      \<and> map fst (trace (return_from_scope (FreeEnvironment e)))
          = map fst (trace e) @ teardown_order (environment e)" for e
  proof -
    from FreeEnvironment_trace [of e] obtain ys where
      "trace (FreeEnvironment e) = trace e @ ys" "map fst ys = teardown_order (environment e)"
      by blast
    with FreeEnvironment_state [of e] show ?thesis
      by (simp add: return_from_scope_def)
  qed
  show ?thesis
    unfolding Let_def
    by (auto simp: CreateEnvironment_def Let_def td split: prod.splits bool.splits)
qed

theorem CreateEnvironment_failure_tears_down_witness:
  "CreateEnvironment worker_constructor failing_bootstrap function_found succeeding_bootstrapper
       \<lparr>platform = Some 0\<rparr> empty_context [''node''] []
       {kDefaultFlags, kPrepareForExecution} (ThreadId 0)
     = Inr (None, return_from_scope (FreeEnvironment
         (constructed (running_worker\<lparr>cleanup_hooks := [9, 1, 2]\<rparr>))))
   \<and> \<not> alive (return_from_scope (FreeEnvironment
         (constructed (running_worker\<lparr>cleanup_hooks := [9, 1, 2]\<rparr>))))
   \<and> map fst (trace (return_from_scope (FreeEnvironment
         (constructed (running_worker\<lparr>cleanup_hooks := [9, 1, 2]\<rparr>))))) =
       [ScopeEntered, StoppedSet, SubWorkersStopped, CleanupHookRun 9, CleanupHookRun 1,
        CleanupHookRun 2, AtExitCallbackRun 3, ScopeExited, TasksDrained, EnvironmentDeleted]
   \<and> CreateEnvironment worker_constructor succeeding_bootstrap function_found failing_bootstrapper
       \<lparr>platform = None\<rparr> empty_context [''node''] []
       {kDefaultFlags, kPrepareForExecution} (ThreadId 0)
     = Inr (None, return_from_scope (FreeEnvironment
         (constructed (running_worker\<lparr>isolate_data := \<lparr>platform = None\<rparr>\<rparr>))))
   \<and> map fst (trace (return_from_scope (FreeEnvironment
         (constructed (running_worker\<lparr>isolate_data := \<lparr>platform = None\<rparr>\<rparr>))))) =
       [ScopeEntered, StoppedSet, SubWorkersStopped, CleanupHookRun 1,
        CleanupHookRun 2, AtExitCallbackRun 3, ScopeExited, EnvironmentDeleted]
   \<and> CreateEnvironment worker_constructor succeeding_bootstrap function_found failing_bootstrapper
       \<lparr>platform = Some 0\<rparr> empty_context [''node''] [] {kDefaultFlags} (ThreadId 0)
     = Inr (Some running_worker, return_from_scope (constructed running_worker))"
  using
    CreateEnvironment_failure_tears_down [where new_Environment = worker_constructor
      and RunBootstrapping = failing_bootstrap and GetFunction = function_found
      and ExecuteBootstrapper = succeeding_bootstrapper
      and isolate_data' = "\<lparr>platform = Some 0\<rparr>" and ctx = empty_context and args = "[''node'']"
      and exec_args = "[]" and flags = "{kDefaultFlags, kPrepareForExecution}"
      and thread_id = "ThreadId 0"]
    CreateEnvironment_failure_tears_down [where new_Environment = worker_constructor
      and RunBootstrapping = succeeding_bootstrap and GetFunction = function_found
      and ExecuteBootstrapper = failing_bootstrapper
      and isolate_data' = "\<lparr>platform = None\<rparr>" and ctx = empty_context and args = "[''node'']"
      and exec_args = "[]" and flags = "{kDefaultFlags, kPrepareForExecution}"
      and thread_id = "ThreadId 0"]
    CreateEnvironment_failure_tears_down [where new_Environment = worker_constructor
      and RunBootstrapping = succeeding_bootstrap and GetFunction = function_found
      and ExecuteBootstrapper = failing_bootstrapper
      and isolate_data' = "\<lparr>platform = Some 0\<rparr>" and ctx = empty_context and args = "[''node'']"
      and exec_args = "[]" and flags = "{kDefaultFlags}"
      and thread_id = "ThreadId 0"]
  by (simp add: Let_def failing_bootstrap_def succeeding_bootstrap_def failing_bootstrapper_def
      succeeding_bootstrapper_def function_found_def worker_constructor_def constructed_def
      running_worker_def teardown_order_def)


end
